theory Spec2Isabelle
  imports Main "HOL-Library.Code_Target_Numeral"
begin

section \<open>Data model\<close>

text \<open>
  The repository holds three versions of the class template \<open>Tensor<T, Rank>\<close>:
  \<^item> \<open>src/unnamed/part_000\<close> (members \<open>dimensions_\<close>, \<open>data_\<close>; broadcasting
    \<open>+ - *\<close>, a reshape that resizes the buffer, free functions \<open>transpose_2d\<close> and
    \<open>matrix_product\<close>); its definitions carry the suffix \<open>_p0\<close>;
  \<^item> \<open>src/include/utec/algebra/Tensor.h\<close> (members \<open>_shape\<close>, \<open>_data\<close>; the header the
    test program includes); suffix \<open>_h\<close>;
  \<^item> the header stored after the build script in \<open>src/CMakeLists.txt\<close> (members
    \<open>shape_\<close>, \<open>data_\<close>; bounds-checked element access); suffix \<open>_c\<close>.

  All three store a \<open>std::array<size_t, Rank>\<close> and a \<open>std::vector<T>\<close>. The template
  parameter \<open>Rank\<close> is the explicit argument \<open>N\<close> of each operation.

  A \<open>size_t\<close> is a natural number below \<open>size_limit\<close>, which is \<open>2^64\<close>, and every sum
  and product the code forms in \<open>size_t\<close> is reduced modulo \<open>2^64\<close>: \<open>wrap64\<close> is
  written at each of them. A signed argument reaches a \<open>size_t\<close> parameter through
  \<open>static_cast<size_t>\<close>.
\<close>

definition size_limit :: nat where
  "size_limit = 2 ^ 64"

definition wrap64 :: "nat \<Rightarrow> nat" where
  "wrap64 x = x mod size_limit"

definition static_cast_size_t :: "int \<Rightarrow> nat" where
  "static_cast_size_t j = nat (j mod int size_limit)"

text \<open>
  A \<open>std::vector<T>\<close> is the list of its elements; its \<open>size()\<close> is a \<open>size_t\<close>, so the
  list is shorter than \<open>size_limit\<close>. Allocation is taken to succeed for every such
  length: \<open>std::bad_alloc\<close> and \<open>std::length_error\<close> are outside the model.
\<close>

typedef 'a vector = "{xs :: 'a list. length xs < size_limit}"
  morphisms elems Vector
  by (rule exI [of _ "[]"]) (simp add: size_limit_def)

setup_lifting type_definition_vector

text \<open>Two vectors are equal when they hold the same elements.\<close>

instantiation vector :: (equal) equal
begin

definition equal_vector :: "'a vector \<Rightarrow> 'a vector \<Rightarrow> bool" where
  "equal_vector v w \<longleftrightarrow> elems v = elems w"

instance
  by standard (simp add: equal_vector_def elems_inject)

end

text \<open>
  The vector holding a given list (of a length that a vector can have),
  \<open>resize(n)\<close> on the empty vector, \<open>resize(n, x)\<close>, assignment to \<open>v[k]\<close>,
  \<open>std::fill\<close>, an update of every element in place, and \<open>std::copy\<close> of a list onto
  the front of the vector (written only for a list that fits). The count \<open>n\<close> is a
  \<open>size_t\<close>.
\<close>

lift_definition vec_of_list :: "'a list \<Rightarrow> 'a vector" is
  "\<lambda>xs. if length xs < size_limit then xs else []"
  by (simp add: size_limit_def)

lift_definition vec_new :: "nat \<Rightarrow> 'a \<Rightarrow> 'a vector" is
  "\<lambda>n x. replicate (wrap64 n) x"
  by (simp add: wrap64_def size_limit_def)

lift_definition vec_resize :: "'a vector \<Rightarrow> nat \<Rightarrow> 'a \<Rightarrow> 'a vector" is
  "\<lambda>v n x. take (wrap64 n) v @ replicate (wrap64 n - length v) x"
  by (simp add: wrap64_def size_limit_def)

lift_definition vec_update :: "'a vector \<Rightarrow> nat \<Rightarrow> 'a \<Rightarrow> 'a vector" is
  "\<lambda>v k x. v[k := x]"
  by simp

lift_definition vec_fill :: "'a vector \<Rightarrow> 'a \<Rightarrow> 'a vector" is
  "\<lambda>v x. map (\<lambda>_. x) v"
  by simp

lift_definition vec_map :: "('a \<Rightarrow> 'a) \<Rightarrow> 'a vector \<Rightarrow> 'a vector" is
  "\<lambda>f v. map f v"
  by simp

lift_definition vec_copy :: "'a list \<Rightarrow> 'a vector \<Rightarrow> 'a vector" is
  "\<lambda>list v. if length list \<le> length v then list @ drop (length list) v else v"
  by simp

record 'a tensor =
  shape :: "nat list"
  buffer :: "'a vector"

abbreviation data :: "'a tensor \<Rightarrow> 'a list" where
  "data t \<equiv> elems (buffer t)"

text \<open>The tensor with shape \<open>s\<close> whose buffer holds the list \<open>d\<close> (shorter than \<open>size_limit\<close>).\<close>

definition Tensor :: "nat list \<Rightarrow> 'a list \<Rightarrow> 'a tensor" where
  "Tensor s d = \<lparr>shape = s, buffer = vec_of_list d\<rparr>"

text \<open>
  The exceptions the three headers throw, with their messages. An access to a
  \<open>std::vector\<close> past its end and a division of a \<open>size_t\<close> by zero have no defined
  behaviour in C++; the model gives them the value \<open>UndefinedBehaviour\<close> so that no
  theorem can rely on them.
\<close>

datatype error =
    RuntimeError string
  | InvalidArgument string
  | OutOfRange string
  | UndefinedBehaviour

text \<open>\<open>std::vector::operator[]\<close>: the position, when it is inside the buffer.\<close>

definition vec_ref :: "'a vector \<Rightarrow> nat \<Rightarrow> error + nat" where
  "vec_ref v k = (if k < length (elems v) then Inr k else Inl UndefinedBehaviour)"

definition vec_read :: "'a vector \<Rightarrow> nat \<Rightarrow> error + 'a" where
  "vec_read v k = (case vec_ref v k of Inl e \<Rightarrow> Inl e | Inr p \<Rightarrow> Inr (elems v ! p))"

definition vec_write :: "'a vector \<Rightarrow> nat \<Rightarrow> 'a \<Rightarrow> error + 'a vector" where
  "vec_write v k x = (case vec_ref v k of Inl e \<Rightarrow> Inl e | Inr p \<Rightarrow> Inr (vec_update v p x))"

text \<open>
  The loop \<open>for (auto d : shape) total *= d\<close>, started at \<open>total = 1\<close>, with \<open>total\<close> a
  \<open>size_t\<close>.
\<close>

definition total_size :: "nat list \<Rightarrow> nat" where
  "total_size dims = fold (\<lambda>d total. wrap64 (total * d)) dims 1"

section \<open>Row-major offsets\<close>

text \<open>
  \<open>compute_flat_index\<close> (part_000) and \<open>compute_index\<close> (Tensor.h) are the same loop over
  \<open>size_t\<close> variables:
  \<^verbatim>\<open>for (size_t i = N; i-- > 0;) { flat_index += indices[i] * stride; stride *= dimensions_[i]; }\<close>
\<close>

fun flat_loop :: "nat list \<Rightarrow> nat list \<Rightarrow> nat \<Rightarrow> nat \<Rightarrow> nat \<Rightarrow> nat" where
  "flat_loop dims indices 0 flat_index stride = flat_index"
| "flat_loop dims indices (Suc i) flat_index stride =
     flat_loop dims indices i (wrap64 (flat_index + indices ! i * stride))
       (wrap64 (stride * dims ! i))"

definition compute_flat_index :: "nat \<Rightarrow> nat list \<Rightarrow> nat list \<Rightarrow> nat" where
  "compute_flat_index N dims indices = flat_loop dims indices N 0 1"

text \<open>
  The loop of the bounds-checked \<open>operator()\<close> (CMakeLists.txt part, both overloads), with
  \<open>offset\<close> and \<open>stride\<close> of type \<open>size_t\<close>:
  \<^verbatim>\<open>for (int i = Rank - 1; i >= 0; --i) {
    if (idx[i] >= shape_[i]) throw std::out_of_range("Index out of range");
    offset += idx[i] * stride; stride *= shape_[i]; }\<close>
\<close>

fun checked_loop :: "nat list \<Rightarrow> nat list \<Rightarrow> nat \<Rightarrow> nat \<Rightarrow> nat \<Rightarrow> error + nat" where
  "checked_loop dims idx 0 offset stride = Inr offset"
| "checked_loop dims idx (Suc i) offset stride =
     (if idx ! i \<ge> dims ! i then Inl (OutOfRange ''Index out of range'')
      else checked_loop dims idx i (wrap64 (offset + idx ! i * stride))
             (wrap64 (stride * dims ! i)))"

text \<open>
  The loop that rebuilds a multi-index from a flat position (part_000 and Tensor.h):
  \<^verbatim>\<open>for (int d = N - 1; d >= 0; --d) { indices[d] = temp % dims[d]; temp /= dims[d]; }\<close>
  The array \<open>indices\<close> lives outside the enclosing loop, so it is passed in and returned.
\<close>

fun unflat_loop :: "nat list \<Rightarrow> nat \<Rightarrow> nat list \<Rightarrow> nat \<Rightarrow> error + nat list" where
  "unflat_loop dims 0 indices temp = Inr indices"
| "unflat_loop dims (Suc d) indices temp =
     (if dims ! d = 0 then Inl UndefinedBehaviour
      else unflat_loop dims d (indices[d := temp mod dims ! d]) (temp div dims ! d))"

text \<open>Sequencing of steps that may fail, and the loop \<open>for (i = 0; i < n; ++i)\<close> over a state.\<close>

definition bind_e :: "error + 'a \<Rightarrow> ('a \<Rightarrow> error + 'b) \<Rightarrow> error + 'b" where
  "bind_e r f = (case r of Inl e \<Rightarrow> Inl e | Inr x \<Rightarrow> f x)"

primrec for_upto :: "nat \<Rightarrow> (nat \<Rightarrow> 's \<Rightarrow> error + 's) \<Rightarrow> 's \<Rightarrow> error + 's" where
  "for_upto 0 body s = Inr s"
| "for_upto (Suc n) body s = bind_e (for_upto n body s) (body n)"

text \<open>
  A member function that mutates \<open>*this\<close> and may throw returns the exception, if any,
  together with the tensor as it is left: \<open>(None, t')\<close> after a normal return,
  \<open>(Some e, t')\<close> when \<open>e\<close> was thrown. \<open>upd\<close> turns such an outcome into a step of a
  computation that keeps the tensor only on success.
\<close>

type_synonym 'a outcome = "error option \<times> 'a tensor"

definition upd :: "'a outcome \<Rightarrow> error + 'a tensor" where
  "upd r = (case fst r of None \<Rightarrow> Inr (snd r) | Some e \<Rightarrow> Inl e)"

text \<open>\<open>std::to_string\<close> on a \<open>size_t\<close>.\<close>

fun to_string :: "nat \<Rightarrow> string" where
  "to_string n =
     (if n < 10 then [char_of (48 + n)] else to_string (n div 10) @ [char_of (48 + n mod 10)])"

declare to_string.simps [simp del]

section \<open>Operations common to the three headers\<close>

text \<open>
  Every constructor ends in \<open>data_.resize(total)\<close> on the empty vector, which
  value-initialises \<open>total\<close> elements: \<open>T{}\<close>, the zero of a numeric \<open>T\<close>.
  \<open>Tensor(const std::array<size_t, N>&)\<close> is this allocation in the three headers, and
  so is the variadic constructor of the CMakeLists.txt part on its arguments after the
  cast, where a \<open>static_assert\<close> fixes the number of arguments to \<open>Rank\<close>.
\<close>

definition Tensor_array :: "nat list \<Rightarrow> ('a::zero) tensor" where
  "Tensor_array dims = \<lparr>shape = dims, buffer = vec_new (total_size dims) 0\<rparr>"

text \<open>\<open>fill\<close>: \<open>std::fill(data_.begin(), data_.end(), value)\<close>; \<open>size\<close>: \<open>data_.size()\<close>.\<close>

definition fill :: "'a \<Rightarrow> 'a tensor \<Rightarrow> 'a tensor" where
  "fill v t = t\<lparr>buffer := vec_fill (buffer t) v\<rparr>"

definition tensor_size :: "'a tensor \<Rightarrow> nat" where
  "tensor_size t = length (data t)"

section \<open>The header in src/unnamed/part_000\<close>

definition can_broadcast :: "nat list \<Rightarrow> nat list \<Rightarrow> bool" where
  "can_broadcast a b =
     list_all (\<lambda>i. \<not> (a ! i \<noteq> b ! i \<and> a ! i \<noteq> 1 \<and> b ! i \<noteq> 1)) [0..<length a]"

definition broadcast_index :: "nat \<Rightarrow> nat \<Rightarrow> nat" where
  "broadcast_index i dim_size = (if dim_size = 1 then 0 else i)"

text \<open>
  \<open>can_broadcast\<close> is declared twice, for rank 2 and for any rank, with the same body.
  \<open>Tensor(Dims... dims)\<close> checks the number of arguments when it runs (a call with more
  than \<open>N\<close> arguments does not compile, so the check can only fail on too few) and
  multiplies the entries of \<open>dimensions_\<close>; \<open>dims\<close> is the list of the arguments after
  \<open>static_cast<size_t>\<close>. \<open>Tensor()\<close> has the shape of all ones and one element.
\<close>

definition dims_mismatch :: "nat \<Rightarrow> error" where
  "dims_mismatch N = RuntimeError (''Number of dimensions do not match with '' @ to_string N)"

definition Tensor_dims_p0 :: "nat \<Rightarrow> nat list \<Rightarrow> error + ('a::zero) tensor" where
  "Tensor_dims_p0 N dims =
     (if length dims \<noteq> N then Inl (dims_mismatch N) else Inr (Tensor_array dims))"

definition Tensor_default_p0 :: "nat \<Rightarrow> ('a::zero) tensor" where
  "Tensor_default_p0 N = \<lparr>shape = replicate N 1, buffer = vec_new 1 0\<rparr>"

text \<open>
  \<open>operator()\<close> of part_000 and of Tensor.h: no check of the indices, the element at
  \<open>compute_flat_index\<close>. Reading, and assigning through the returned reference. \<open>idx\<close> is
  the list of the arguments after \<open>static_cast<size_t>\<close>.
\<close>

definition operator_call :: "nat \<Rightarrow> 'a tensor \<Rightarrow> nat list \<Rightarrow> error + 'a" where
  "operator_call N t idx = vec_read (buffer t) (compute_flat_index N (shape t) idx)"

definition operator_call_assign :: "nat \<Rightarrow> 'a tensor \<Rightarrow> nat list \<Rightarrow> 'a \<Rightarrow> 'a outcome" where
  "operator_call_assign N t idx x =
     (case vec_write (buffer t) (compute_flat_index N (shape t) idx) x of
        Inl e \<Rightarrow> (Some e, t)
      | Inr d \<Rightarrow> (None, t\<lparr>buffer := d\<rparr>))"

text \<open>
  \<open>operator=(std::initializer_list<T>)\<close>, with \<open>std::runtime_error\<close> in part_000 and
  \<open>std::invalid_argument\<close> in the CMakeLists.txt part; \<open>std::copy\<close> overwrites the
  first \<open>list.size()\<close> elements.
\<close>

definition assign_list_p0 :: "'a list \<Rightarrow> 'a tensor \<Rightarrow> 'a outcome" where
  "assign_list_p0 list t =
     (if length list \<noteq> length (data t)
      then (Some (RuntimeError ''Data size does not match tensor size''), t)
      else (None, t\<lparr>buffer := vec_copy list (buffer t)\<rparr>))"

text \<open>
  \<open>reshape(Dims... new_dims)\<close> of part_000: the only failure is a wrong number of
  arguments; the buffer is resized to the new element count, the product of the new
  dimensions in \<open>size_t\<close>. \<open>new_dims\<close> is the list of the arguments after the cast.
\<close>

definition reshape_p0 :: "nat \<Rightarrow> nat list \<Rightarrow> ('a::zero) tensor \<Rightarrow> 'a outcome" where
  "reshape_p0 N new_dims t =
     (if length new_dims \<noteq> N then (Some (dims_mismatch N), t)
      else
        let new_shape = new_dims;
            new_total = total_size new_shape;
            grown = (if new_total > length (data t) then vec_resize (buffer t) new_total 0
                     else buffer t)
        in (None, \<lparr>shape = new_shape, buffer = vec_resize grown new_total 0\<rparr>))"

text \<open>
  \<open>operator+\<close>, \<open>operator-\<close> and \<open>operator*\<close> on two tensors are one text with three
  operators \<open>f\<close>. The result is built by \<open>Tensor<T, N> result(dimensions_)\<close>, with the
  shape of the left operand; the loop runs over the left operand's buffer, and only the
  right operand is read through \<open>broadcast_index\<close>. The state of the loop is the array
  \<open>indices\<close> and \<open>result\<close>.
\<close>

definition broadcast_msg :: string where
  "broadcast_msg = ''Shapes do not match and they are not compatible for broadcasting''"

definition elementwise_body_p0 ::
  "('a \<Rightarrow> 'a \<Rightarrow> 'a) \<Rightarrow> nat \<Rightarrow> 'a tensor \<Rightarrow> 'a tensor \<Rightarrow> nat \<Rightarrow> nat list \<times> 'a tensor
     \<Rightarrow> error + nat list \<times> 'a tensor" where
  "elementwise_body_p0 f N t other i st =
     bind_e (unflat_loop (shape t) N (fst st) i) (\<lambda>indices.
       let other_indices = map (\<lambda>d. broadcast_index (indices ! d) (shape other ! d)) [0..<N]
       in bind_e (vec_read (buffer t) i) (\<lambda>x.
          bind_e (vec_read (buffer other) (compute_flat_index N (shape other) other_indices)) (\<lambda>y.
          bind_e (vec_write (buffer (snd st)) i (f x y)) (\<lambda>d.
          Inr (indices, (snd st)\<lparr>buffer := d\<rparr>)))))"

definition elementwise_p0 ::
  "('a \<Rightarrow> 'a \<Rightarrow> 'a) \<Rightarrow> nat \<Rightarrow> ('a::zero) tensor \<Rightarrow> 'a tensor \<Rightarrow> error + 'a tensor" where
  "elementwise_p0 f N t other =
     (if \<not> can_broadcast (shape t) (shape other) then Inl (RuntimeError broadcast_msg)
      else bind_e (for_upto (length (data t)) (elementwise_body_p0 f N t other)
                     (replicate N 0, Tensor_array (shape t)))
             (\<lambda>st. Inr (snd st)))"

definition operator_plus_p0 ::
  "nat \<Rightarrow> ('a::{zero,plus}) tensor \<Rightarrow> 'a tensor \<Rightarrow> error + 'a tensor" where
  "operator_plus_p0 N t other = elementwise_p0 (\<lambda>x y. x + y) N t other"


definition operator_times_p0 ::
  "nat \<Rightarrow> ('a::{zero,times}) tensor \<Rightarrow> 'a tensor \<Rightarrow> error + 'a tensor" where
  "operator_times_p0 N t other = elementwise_p0 (\<lambda>x y. x * y) N t other"

text \<open>
  The scalar operators copy the tensor and update every element in place
  (\<open>for (auto& x : result.data_) x += scalar\<close>); they are the same in part_000 and in the
  CMakeLists.txt part. \<open>x /= scalar\<close> is the division of the element type \<open>T\<close>, which
  differs from type to type (truncating and undefined at zero for \<open>int\<close>, IEEE for
  \<open>double\<close>): it is the parameter \<open>dv\<close>. \<open>scalar + tensor\<close> and \<open>scalar * tensor\<close> call the
  member operators.
\<close>

definition operator_plus_scalar :: "('a::plus) tensor \<Rightarrow> 'a \<Rightarrow> 'a tensor" where
  "operator_plus_scalar t scalar = t\<lparr>buffer := vec_map (\<lambda>x. x + scalar) (buffer t)\<rparr>"

definition operator_minus_scalar :: "('a::minus) tensor \<Rightarrow> 'a \<Rightarrow> 'a tensor" where
  "operator_minus_scalar t scalar = t\<lparr>buffer := vec_map (\<lambda>x. x - scalar) (buffer t)\<rparr>"

definition operator_times_scalar :: "('a::times) tensor \<Rightarrow> 'a \<Rightarrow> 'a tensor" where
  "operator_times_scalar t scalar = t\<lparr>buffer := vec_map (\<lambda>x. x * scalar) (buffer t)\<rparr>"

definition operator_div_scalar :: "('a \<Rightarrow> 'a \<Rightarrow> 'a) \<Rightarrow> 'a tensor \<Rightarrow> 'a \<Rightarrow> 'a tensor" where
  "operator_div_scalar dv t scalar = t\<lparr>buffer := vec_map (\<lambda>x. dv x scalar) (buffer t)\<rparr>"

definition scalar_plus :: "('a::plus) \<Rightarrow> 'a tensor \<Rightarrow> 'a tensor" where
  "scalar_plus scalar t = operator_plus_scalar t scalar"

definition scalar_times :: "('a::times) \<Rightarrow> 'a tensor \<Rightarrow> 'a tensor" where
  "scalar_times scalar t = operator_times_scalar t scalar"

text \<open>
  The free functions \<open>transpose_2d\<close> and \<open>matrix_product\<close> spell the constructor call
  and the element accesses out for \<open>N == 2\<close>, \<open>N == 3\<close> and \<open>N == 4\<close>; for any other
  \<open>N\<close> the default-constructed \<open>result\<close> is kept and no element is read or written.
\<close>

definition spelled :: "nat \<Rightarrow> nat list \<Rightarrow> nat list option" where
  "spelled N a =
     (if N = 2 then Some [a ! 0, a ! 1]
      else if N = 3 then Some [a ! 0, a ! 1, a ! 2]
      else if N = 4 then Some [a ! 0, a ! 1, a ! 2, a ! 3]
      else None)"

definition make_result_p0 :: "nat \<Rightarrow> nat list \<Rightarrow> error + ('a::zero) tensor" where
  "make_result_p0 N new_shape =
     (case spelled N new_shape of
        Some dims \<Rightarrow> Tensor_dims_p0 N dims
      | None \<Rightarrow> Inr (Tensor_default_p0 N))"

definition swap_last2 :: "nat \<Rightarrow> 'b list \<Rightarrow> 'b list" where
  "swap_last2 N a = a[N - 1 := a ! (N - 2), N - 2 := a ! (N - 1)]"



text \<open>
  \<open>matrix_product\<close>. The arrays \<open>a_idx\<close> and \<open>b_idx\<close> are filled from \<open>idx\<close> in every
  round of the inner loop before they are used, so they are values of that round; the
  accumulator \<open>T sum = 0\<close> is called \<open>acc\<close>.
\<close>

definition incompatible_msg :: string where
  "incompatible_msg = ''Matrix dimensions are incompatible for multiplication''"

definition batch_msg :: string where
  "batch_msg =
     ''Matrix dimensions are compatible for multiplication but batch dimensions do not match''"

definition dot_body_p0 ::
  "nat \<Rightarrow> ('a::semiring_0) tensor \<Rightarrow> 'a tensor \<Rightarrow> nat list \<Rightarrow> nat \<Rightarrow> 'a \<Rightarrow> error + 'a" where
  "dot_body_p0 N A B idx k acc =
     (let a_idx = (map (\<lambda>d. idx ! d) [0..<N])[N - 1 := k];
          b_idx = (map (\<lambda>d. idx ! d) [0..<N])[N - 2 := k]
      in (case (spelled N a_idx, spelled N b_idx) of
            (Some a_args, Some b_args) \<Rightarrow>
              bind_e (operator_call N A a_args) (\<lambda>x.
              bind_e (operator_call N B b_args) (\<lambda>y.
              Inr (acc + x * y)))
          | _ \<Rightarrow> Inr acc))"

definition matrix_body_p0 ::
  "nat \<Rightarrow> ('a::semiring_0) tensor \<Rightarrow> 'a tensor \<Rightarrow> nat list \<Rightarrow> nat \<Rightarrow> nat list \<times> 'a tensor
     \<Rightarrow> error + nat list \<times> 'a tensor" where
  "matrix_body_p0 N A B result_shape i st =
     bind_e (unflat_loop result_shape N (fst st) i) (\<lambda>idx.
     bind_e (for_upto (shape A ! (N - 1)) (dot_body_p0 N A B idx) 0) (\<lambda>acc.
       (case spelled N idx of
          Some args \<Rightarrow>
            bind_e (upd (operator_call_assign N (snd st) args acc)) (\<lambda>result. Inr (idx, result))
        | None \<Rightarrow> Inr (idx, snd st))))"

definition matrix_product_p0 ::
  "nat \<Rightarrow> ('a::semiring_0) tensor \<Rightarrow> 'a tensor \<Rightarrow> error + 'a tensor" where
  "matrix_product_p0 N A B =
     (let a_shape = shape A; b_shape = shape B
      in if N < 2 then Inl (RuntimeError incompatible_msg)
         else if a_shape ! (N - 1) \<noteq> b_shape ! (N - 2) then Inl (RuntimeError incompatible_msg)
         else if \<not> list_all (\<lambda>i. a_shape ! i = b_shape ! i) [0..<N - 2]
           then Inl (RuntimeError batch_msg)
         else
           let result_shape = a_shape[N - 1 := b_shape ! (N - 1), N - 2 := a_shape ! (N - 2)]
           in bind_e (make_result_p0 N result_shape) (\<lambda>result.
              bind_e (for_upto (total_size result_shape) (matrix_body_p0 N A B result_shape)
                        (replicate N 0, result))
                (\<lambda>st. Inr (snd st))))"

section \<open>The header src/include/utec/algebra/Tensor.h\<close>

text \<open>
  The variadic constructor \<open>Tensor(Dims... dims)\<close> stores the arguments after the cast in
  \<open>_shape\<close> and multiplies the arguments themselves into the \<open>size_t\<close> \<open>total\<close>
  (\<open>((total *= dims), ...)\<close>). For an argument of an integer type the product
  \<open>total * dims\<close> is formed in \<open>size_t\<close>, after the conversion of \<open>dims\<close>; this is the
  case modelled here, with the arguments as integers. (An argument of a floating-point
  type would be multiplied in floating point; the model leaves such calls out.)
\<close>

definition Tensor_dims_h :: "int list \<Rightarrow> ('a::zero) tensor" where
  "Tensor_dims_h dims =
     \<lparr>shape = map static_cast_size_t dims,
      buffer = vec_new (fold (\<lambda>d total. wrap64 (total * static_cast_size_t d)) dims 1) 0\<rparr>"

text \<open>
  \<open>operator+\<close> and \<open>operator-\<close> demand equal shapes and combine the buffers position by
  position.
\<close>

definition pointwise_body_h ::
  "('a \<Rightarrow> 'a \<Rightarrow> 'a) \<Rightarrow> 'a tensor \<Rightarrow> 'a tensor \<Rightarrow> nat \<Rightarrow> 'a tensor \<Rightarrow> error + 'a tensor" where
  "pointwise_body_h f t other i result =
     bind_e (vec_read (buffer t) i) (\<lambda>x.
     bind_e (vec_read (buffer other) i) (\<lambda>y.
     bind_e (vec_write (buffer result) i (f x y)) (\<lambda>d.
     Inr (result\<lparr>buffer := d\<rparr>))))"

definition operator_plus_h ::
  "('a::{zero,plus}) tensor \<Rightarrow> 'a tensor \<Rightarrow> error + 'a tensor" where
  "operator_plus_h t other =
     (if shape t \<noteq> shape other then Inl (InvalidArgument ''Shapes incompatibles para suma'')
      else for_upto (length (data t)) (pointwise_body_h (\<lambda>x y. x + y) t other)
             (Tensor_array (shape t)))"


text \<open>
  \<open>operator*\<close> on two tensors broadcasts both operands. The first loop builds
  \<open>result_shape\<close> (declared without initialiser, every entry assigned before use) and
  throws at the first incompatible axis, before \<open>result\<close> is allocated.
\<close>

definition broadcast_shape_body_h ::
  "nat list \<Rightarrow> nat list \<Rightarrow> nat \<Rightarrow> nat list \<Rightarrow> error + nat list" where
  "broadcast_shape_body_h a b i result_shape =
     (if a ! i = b ! i then Inr (result_shape[i := a ! i])
      else if a ! i = 1 then Inr (result_shape[i := b ! i])
      else if b ! i = 1 then Inr (result_shape[i := a ! i])
      else Inl (InvalidArgument ''Shapes incompatibles para broadcasting''))"

definition times_body_h ::
  "nat \<Rightarrow> ('a::times) tensor \<Rightarrow> 'a tensor \<Rightarrow> nat list \<Rightarrow> nat \<Rightarrow> nat list \<times> 'a tensor
     \<Rightarrow> error + nat list \<times> 'a tensor" where
  "times_body_h N t other result_shape flat st =
     bind_e (unflat_loop result_shape N (fst st) flat) (\<lambda>idx.
       let idx_a = map (\<lambda>i. if shape t ! i = 1 then 0 else idx ! i) [0..<N];
           idx_b = map (\<lambda>i. if shape other ! i = 1 then 0 else idx ! i) [0..<N]
       in bind_e (operator_call N t idx_a) (\<lambda>x.
          bind_e (operator_call N other idx_b) (\<lambda>y.
          bind_e (vec_write (buffer (snd st)) flat (x * y)) (\<lambda>d.
          Inr (idx, (snd st)\<lparr>buffer := d\<rparr>)))))"

definition operator_times_h ::
  "nat \<Rightarrow> ('a::{zero,times}) tensor \<Rightarrow> 'a tensor \<Rightarrow> error + 'a tensor" where
  "operator_times_h N t other =
     bind_e (for_upto N (broadcast_shape_body_h (shape t) (shape other)) (replicate N 0))
       (\<lambda>result_shape.
          let result = Tensor_array result_shape;
              total = tensor_size result
          in bind_e (for_upto total (times_body_h N t other result_shape) (replicate N 0, result))
               (\<lambda>st. Inr (snd st)))"

text \<open>
  \<open>reshape\<close> of Tensor.h: the product of the new shape, formed in \<open>size_t\<close>, must be the
  element count, and only \<open>_shape\<close> is assigned.
\<close>

definition reshape_h :: "nat list \<Rightarrow> 'a tensor \<Rightarrow> 'a outcome" where
  "reshape_h new_shape t =
     (let new_total = total_size new_shape
      in if new_total \<noteq> length (data t)
         then (Some (InvalidArgument ''Nuevo shape incompatible con cantidad de elementos''), t)
         else (None, t\<lparr>shape := new_shape\<rparr>))"


section \<open>The header stored in src/CMakeLists.txt\<close>

text \<open>
  \<open>operator()\<close> checks every index inside the offset loop and throws
  \<open>std::out_of_range\<close>; \<open>data_\<close> is touched after the loop only. The arguments are cast
  by \<open>static_cast<size_t>\<close> before the loop.
\<close>

definition operator_call_c :: "nat \<Rightarrow> 'a tensor \<Rightarrow> nat list \<Rightarrow> error + 'a" where
  "operator_call_c N t idx =
     bind_e (checked_loop (shape t) idx N 0 1) (\<lambda>offset. vec_read (buffer t) offset)"

definition operator_call_assign_c :: "nat \<Rightarrow> 'a tensor \<Rightarrow> nat list \<Rightarrow> 'a \<Rightarrow> 'a outcome" where
  "operator_call_assign_c N t idx x =
     (case bind_e (checked_loop (shape t) idx N 0 1) (\<lambda>offset. vec_write (buffer t) offset x) of
        Inl e \<Rightarrow> (Some e, t)
      | Inr d \<Rightarrow> (None, t\<lparr>buffer := d\<rparr>))"

text \<open>
  \<open>reshape(const ShapeType&)\<close>, and \<open>reshape(Dims... dims)\<close>, which casts its arguments
  and calls it.
\<close>

definition reshape_c :: "nat list \<Rightarrow> 'a tensor \<Rightarrow> 'a outcome" where
  "reshape_c new_shape t =
     (let new_total = total_size new_shape
      in if new_total \<noteq> length (data t)
         then (Some (InvalidArgument ''Total size of new shape does not match tensor size''), t)
         else (None, t\<lparr>shape := new_shape\<rparr>))"

definition reshape_dims_c :: "int list \<Rightarrow> 'a tensor \<Rightarrow> 'a outcome" where
  "reshape_dims_c dims t = reshape_c (map static_cast_size_t dims) t"

definition assign_list_c :: "'a list \<Rightarrow> 'a tensor \<Rightarrow> 'a outcome" where
  "assign_list_c list t =
     (if length list \<noteq> length (data t)
      then (Some (InvalidArgument ''Data size does not match tensor size''), t)
      else (None, t\<lparr>buffer := vec_copy list (buffer t)\<rparr>))"

text \<open>\<open>scalar - tensor\<close>, a friend: \<open>for (auto& elem : result.data_) elem = scalar - elem\<close>.\<close>

definition scalar_minus_c :: "('a::minus) \<Rightarrow> 'a tensor \<Rightarrow> 'a tensor" where
  "scalar_minus_c scalar t = t\<lparr>buffer := vec_map (\<lambda>elem. scalar - elem) (buffer t)\<rparr>"

section \<open>Auxiliary notions for the proofs\<close>

text \<open>
  The row-major offset of a multi-index and the multi-index of an offset, as functions on
  lists of natural numbers, and the validity of a multi-index for a shape. The loops
  above are shown to compute them, the offset modulo \<open>2^64\<close>.
\<close>

fun offset_of :: "nat list \<Rightarrow> nat list \<Rightarrow> nat" where
  "offset_of (d # ds) (j # js) = j * prod_list ds + offset_of ds js"
| "offset_of _ _ = 0"

fun unflatten :: "nat list \<Rightarrow> nat \<Rightarrow> nat list" where
  "unflatten [] k = []"
| "unflatten (d # ds) k = (k div prod_list ds) mod d # unflatten ds k"

definition valid_index :: "nat list \<Rightarrow> nat list \<Rightarrow> bool" where
  "valid_index dims idx \<longleftrightarrow> length idx = length dims \<and> list_all2 (\<lambda>j d. j < d) idx dims"


text \<open>
  The position in the right operand that the broadcasting loop of part_000 reads for
  position \<open>i\<close> of the left operand.
\<close>

definition bcast_offset :: "nat list \<Rightarrow> nat list \<Rightarrow> nat \<Rightarrow> nat" where
  "bcast_offset sa sb i =
     offset_of sb (map (\<lambda>d. broadcast_index (unflatten sa i ! d) (sb ! d)) [0..<length sb])"



section \<open>The tensors a program can build\<close>

text \<open>
  For each header, the tensors obtained from a constructor by \<open>fill\<close>, assignment through
  \<open>operator()\<close>, assignment of a flat literal list and \<open>reshape\<close>, whether the operation
  returns or throws. A \<open>std::array<size_t, N>\<close> argument has \<open>N\<close> entries by its type, and
  so has the argument list of a call that a \<open>static_assert\<close> on its length accepts; an
  argument list after the cast is any list of \<open>size_t\<close> values, so the variadic
  constructor and \<open>reshape\<close> of the CMakeLists.txt part are the rules \<open>c_array\<close> and
  \<open>c_reshape\<close>. Executions with undefined behaviour are left out.
\<close>

inductive reachable_p0 :: "nat \<Rightarrow> ('a::zero) tensor \<Rightarrow> bool" for N :: nat where
  p0_dims: "Tensor_dims_p0 N dims = Inr t \<Longrightarrow> reachable_p0 N t"
| p0_array: "length dims = N \<Longrightarrow> reachable_p0 N (Tensor_array dims)"
| p0_default: "reachable_p0 N (Tensor_default_p0 N)"
| p0_fill: "reachable_p0 N t \<Longrightarrow> reachable_p0 N (fill v t)"
| p0_write: "reachable_p0 N t \<Longrightarrow> length idx = N \<Longrightarrow> operator_call_assign N t idx x = (r, t')
     \<Longrightarrow> r \<noteq> Some UndefinedBehaviour \<Longrightarrow> reachable_p0 N t'"
| p0_assign: "reachable_p0 N t \<Longrightarrow> reachable_p0 N (snd (assign_list_p0 list t))"
| p0_reshape: "reachable_p0 N t \<Longrightarrow> reachable_p0 N (snd (reshape_p0 N new_dims t))"

inductive reachable_h :: "nat \<Rightarrow> ('a::zero) tensor \<Rightarrow> bool" for N :: nat where
  h_array: "length dims = N \<Longrightarrow> reachable_h N (Tensor_array dims)"
| h_dims: "length args = N \<Longrightarrow> reachable_h N (Tensor_dims_h args)"
| h_fill: "reachable_h N t \<Longrightarrow> reachable_h N (fill v t)"
| h_write: "reachable_h N t \<Longrightarrow> length idx = N \<Longrightarrow> operator_call_assign N t idx x = (r, t')
     \<Longrightarrow> r \<noteq> Some UndefinedBehaviour \<Longrightarrow> reachable_h N t'"
| h_reshape: "reachable_h N t \<Longrightarrow> length new_shape = N
     \<Longrightarrow> reachable_h N (snd (reshape_h new_shape t))"

inductive reachable_c :: "nat \<Rightarrow> ('a::zero) tensor \<Rightarrow> bool" for N :: nat where
  c_array: "length dims = N \<Longrightarrow> reachable_c N (Tensor_array dims)"
| c_fill: "reachable_c N t \<Longrightarrow> reachable_c N (fill v t)"
| c_write: "reachable_c N t \<Longrightarrow> length idx = N \<Longrightarrow> operator_call_assign_c N t idx x = (r, t')
     \<Longrightarrow> r \<noteq> Some UndefinedBehaviour \<Longrightarrow> reachable_c N t'"
| c_assign: "reachable_c N t \<Longrightarrow> reachable_c N (snd (assign_list_c list t))"
| c_reshape: "reachable_c N t \<Longrightarrow> length new_shape = N
     \<Longrightarrow> reachable_c N (snd (reshape_c new_shape t))"

section \<open>Basic facts\<close>

subsection \<open>Arithmetic in \<open>size_t\<close> and vectors\<close>

lemma size_limit_pos [simp]: "0 < size_limit" "Suc 0 < size_limit"
  by (simp_all add: size_limit_def)

lemma wrap64_lt: "wrap64 x < size_limit"
  by (simp add: wrap64_def)

lemma wrap64_id: "x < size_limit \<Longrightarrow> wrap64 x = x"
  by (simp add: wrap64_def)

lemma wrap64_wrap64 [simp]: "wrap64 (wrap64 x) = wrap64 x"
  by (simp add: wrap64_def)

lemma wrap64_0 [simp]: "wrap64 0 = 0"
  by (simp add: wrap64_def)

lemma wrap64_Suc_0 [simp]: "wrap64 (Suc 0) = Suc 0"
  by (simp add: wrap64_def size_limit_def)

lemma wrap64_mult_left: "wrap64 (wrap64 a * b) = wrap64 (a * b)"
  by (simp add: wrap64_def mod_mult_left_eq)

lemma wrap64_step: "wrap64 (wrap64 a + wrap64 b * c) = wrap64 (a + b * c)"
proof -
  have "(b mod size_limit * c) mod size_limit = (b * c) mod size_limit"
    by (rule mod_mult_left_eq)
  then have "(a mod size_limit + b mod size_limit * c) mod size_limit = (a + b * c) mod size_limit"
    by (rule mod_add_cong [OF mod_mod_trivial])
  then show ?thesis by (simp add: wrap64_def)
qed

lemma length_elems_lt: "length (elems v) < size_limit"
  using elems [of v] by simp

lemma tensor_size_lt: "tensor_size t < size_limit"
  by (simp add: tensor_size_def length_elems_lt)

lemma elems_vec_of_list: "length xs < size_limit \<Longrightarrow> elems (vec_of_list xs) = xs"
  by (simp add: vec_of_list.rep_eq)

lemma vec_of_list_elems [simp]: "vec_of_list (elems v) = v"
  using length_elems_lt [of v] by (simp add: elems_inject [symmetric] vec_of_list.rep_eq)

lemma elems_simps [simp]:
  "elems (vec_new n x) = replicate (wrap64 n) x"
  "elems (vec_resize v n x) = take (wrap64 n) (elems v) @ replicate (wrap64 n - length (elems v)) x"
  "elems (vec_update v k x) = (elems v)[k := x]"
  "elems (vec_fill v x) = map (\<lambda>_. x) (elems v)"
  "elems (vec_map f v) = map f (elems v)"
  "elems (vec_copy list v) =
     (if length list \<le> length (elems v) then list @ drop (length list) (elems v) else elems v)"
  by (simp_all add: vec_new.rep_eq vec_resize.rep_eq vec_update.rep_eq vec_fill.rep_eq
      vec_map.rep_eq vec_copy.rep_eq)

lemma vector_eqI: "elems v = elems w \<Longrightarrow> v = w"
  by (simp add: elems_inject)

lemma Tensor_simps [simp]:
  "shape (Tensor s d) = s"
  "length d < size_limit \<Longrightarrow> data (Tensor s d) = d"
  by (simp_all add: Tensor_def elems_vec_of_list)

lemma tensor_eqI: "shape (t :: 'a tensor) = s \<Longrightarrow> data t = d \<Longrightarrow> t = Tensor s d"
  by (cases t) (auto simp: Tensor_def)

lemma tensor_eq_iff: "(t :: 'a tensor) = u \<longleftrightarrow> shape t = shape u \<and> data t = data u"
  by (cases t, cases u) (auto simp: elems_inject)

lemma total_size_fold:
  "a < size_limit \<Longrightarrow> fold (\<lambda>d total. wrap64 (total * d)) dims a = wrap64 (a * prod_list dims)"
proof (induction dims arbitrary: a)
  case Nil
  then show ?case by (simp add: wrap64_id)
next
  case (Cons d ds)
  have "fold (\<lambda>d total. wrap64 (total * d)) ds (wrap64 (a * d)) = wrap64 (wrap64 (a * d) * prod_list ds)"
    by (rule Cons.IH) (rule wrap64_lt)
  then show ?case by (simp add: wrap64_mult_left mult.assoc)
qed

lemma total_size_prod: "total_size dims = wrap64 (prod_list dims)"
  using total_size_fold [of 1 dims] by (simp add: total_size_def)

lemma total_size_small: "prod_list dims < size_limit \<Longrightarrow> total_size dims = prod_list dims"
  by (simp add: total_size_prod wrap64_id)

lemma total_size_lt: "total_size dims < size_limit"
  by (simp add: total_size_prod wrap64_lt)

subsection \<open>Row-major offsets and multi-indices\<close>


lemma bind_e_simps [simp]: "bind_e (Inl e) f = Inl e" "bind_e (Inr x) f = f x"
  by (simp_all add: bind_e_def)

lemma valid_index_Nil [simp]: "valid_index [] idx \<longleftrightarrow> idx = []"
  by (auto simp: valid_index_def)

lemma valid_index_Cons [simp]:
  "valid_index (d # ds) idx \<longleftrightarrow> (\<exists>j js. idx = j # js \<and> j < d \<and> valid_index ds js)"
  by (cases idx) (auto simp: valid_index_def)


lemma valid_index_nth: "valid_index dims idx \<Longrightarrow> e < length dims \<Longrightarrow> idx ! e < dims ! e"
  by (simp add: valid_index_def list_all2_nthD)

lemma valid_indexI:
  "length idx = length dims \<Longrightarrow> (\<And>e. e < length dims \<Longrightarrow> idx ! e < dims ! e) \<Longrightarrow> valid_index dims idx"
  by (simp add: valid_index_def list_all2_conv_all_nth)

lemma offset_of_lt: "valid_index dims idx \<Longrightarrow> offset_of dims idx < prod_list dims"
proof (induction dims arbitrary: idx)
  case Nil
  then show ?case by simp
next
  case (Cons d ds)
  then obtain j js where idx: "idx = j # js" and j: "j < d" and v: "valid_index ds js"
    by auto
  have "offset_of ds js < prod_list ds" using Cons.IH v by simp
  then have "j * prod_list ds + offset_of ds js < Suc j * prod_list ds" by simp
  also have "\<dots> \<le> d * prod_list ds" using j by (intro mult_le_mono1) simp
  finally show ?case by (simp add: idx)
qed

lemma length_unflatten [simp]: "length (unflatten dims k) = length dims"
  by (induction dims) simp_all

lemma unflatten_nth:
  "e < length dims \<Longrightarrow> unflatten dims k ! e = (k div prod_list (drop (Suc e) dims)) mod dims ! e"
proof (induction dims arbitrary: e)
  case Nil
  then show ?case by simp
next
  case (Cons d ds)
  then show ?case by (cases e) simp_all
qed

lemma unflatten_valid: "\<forall>d\<in>set dims. 0 < d \<Longrightarrow> valid_index dims (unflatten dims k)"
  by (induction dims) simp_all


lemma prod_list_pos: "0 < prod_list dims \<longleftrightarrow> (\<forall>d\<in>set dims. 0 < (d::nat))"
  by (induction dims) auto


lemma unflatten_offset_of_gen:
  "valid_index dims idx \<Longrightarrow> unflatten dims (m * prod_list dims + offset_of dims idx) = idx"
proof (induction dims arbitrary: idx m)
  case Nil
  then show ?case by simp
next
  case (Cons d ds)
  then obtain j js where idx: "idx = j # js" and j: "j < d" and v: "valid_index ds js"
    by auto
  let ?P = "prod_list ds"
  have lt: "offset_of ds js < ?P" using v by (rule offset_of_lt)
  have eq: "m * (d * ?P) + (j * ?P + offset_of ds js) = (m * d + j) * ?P + offset_of ds js"
    by (simp add: algebra_simps)
  have tl: "unflatten ds ((m * d + j) * ?P + offset_of ds js) = js"
    using Cons.IH [OF v] .
  have "((m * d + j) * ?P + offset_of ds js) div ?P = m * d + j"
    using lt by simp
  then have hd: "(((m * d + j) * ?P + offset_of ds js) div ?P) mod d = j"
    using j by simp
  show ?case
    unfolding idx by (simp only: unflatten.simps offset_of.simps prod_list.Cons eq tl hd)
qed

lemma unflatten_offset_of: "valid_index dims idx \<Longrightarrow> unflatten dims (offset_of dims idx) = idx"
  using unflatten_offset_of_gen [of dims idx 0] by simp

lemma offset_of_snoc:
  "length ds = length js \<Longrightarrow> offset_of (ds @ [d]) (js @ [j]) = offset_of ds js * d + j"
  by (induction ds js rule: list_induct2) (simp_all add: algebra_simps)


lemma flat_loop_eq:
  "f < size_limit \<Longrightarrow> i \<le> length dims \<Longrightarrow> i \<le> length idx \<Longrightarrow>
   flat_loop dims idx i f s = wrap64 (f + s * offset_of (take i dims) (take i idx))"
proof (induction i arbitrary: f s)
  case 0
  then show ?case by (simp add: wrap64_id)
next
  case (Suc i)
  then have "take (Suc i) dims = take i dims @ [dims ! i]" "take (Suc i) idx = take i idx @ [idx ! i]"
    by (simp_all add: take_Suc_conv_app_nth)
  moreover have "length (take i dims) = length (take i idx)" using Suc.prems by simp
  ultimately have off: "offset_of (take (Suc i) dims) (take (Suc i) idx)
      = offset_of (take i dims) (take i idx) * dims ! i + idx ! i"
    by (simp add: offset_of_snoc)
  have "flat_loop dims idx (Suc i) f s
      = wrap64 (wrap64 (f + idx ! i * s) + wrap64 (s * dims ! i) * offset_of (take i dims) (take i idx))"
    using Suc.prems by (simp add: Suc.IH wrap64_lt)
  also have "\<dots> = wrap64 (f + idx ! i * s + s * dims ! i * offset_of (take i dims) (take i idx))"
    by (rule wrap64_step)
  also have "f + idx ! i * s + s * dims ! i * offset_of (take i dims) (take i idx)
      = f + s * offset_of (take (Suc i) dims) (take (Suc i) idx)"
    unfolding off by (simp add: algebra_simps)
  finally show ?case .
qed

lemma compute_flat_index_wrap:
  "length dims = N \<Longrightarrow> length idx = N \<Longrightarrow>
   compute_flat_index N dims idx = wrap64 (offset_of dims idx)"
  by (simp add: compute_flat_index_def flat_loop_eq)

lemma compute_flat_index_eq:
  "length dims = N \<Longrightarrow> length idx = N \<Longrightarrow> offset_of dims idx < size_limit \<Longrightarrow>
   compute_flat_index N dims idx = offset_of dims idx"
  by (simp add: compute_flat_index_wrap wrap64_id)

subsection \<open>Loops\<close>

lemma vec_read_simp [simp]:
  "k < length (elems v) \<Longrightarrow> vec_read v k = Inr (elems v ! k)"
  "\<not> k < length (elems v) \<Longrightarrow> vec_read v k = Inl UndefinedBehaviour"
  by (simp_all add: vec_read_def vec_ref_def)

lemma vec_write_simp [simp]:
  "k < length (elems v) \<Longrightarrow> vec_write v k x = Inr (vec_update v k x)"
  "\<not> k < length (elems v) \<Longrightarrow> vec_write v k x = Inl UndefinedBehaviour"
  by (simp_all add: vec_write_def vec_ref_def)


lemma upd_simps [simp]: "upd (None, t) = Inr t" "upd (Some e, t) = Inl e"
  by (simp_all add: upd_def)

lemma for_upto_inv:
  assumes init: "P 0 s"
    and step: "\<And>i s. i < n \<Longrightarrow> P i s \<Longrightarrow> \<exists>s'. body i s = Inr s' \<and> P (Suc i) s'"
  shows "\<exists>s'. for_upto n body s = Inr s' \<and> P n s'"
proof -
  have "m \<le> n \<Longrightarrow> \<exists>s'. for_upto m body s = Inr s' \<and> P m s'" for m
  proof (induction m)
    case 0
    then show ?case using init by simp
  next
    case (Suc m)
    then obtain s1 where s1: "for_upto m body s = Inr s1" "P m s1" by auto
    from Suc.prems have "m < n" by simp
    from step [OF this s1(2)] obtain s2 where "body m s1 = Inr s2" "P (Suc m) s2" by auto
    then show ?case using s1 by simp
  qed
  then show ?thesis by simp
qed

lemma checked_loop_eq:
  "checked_loop dims idx i off s =
     (if \<forall>e<i. idx ! e < dims ! e then Inr (flat_loop dims idx i off s)
      else Inl (OutOfRange ''Index out of range''))"
proof (induction i arbitrary: off s)
  case 0
  then show ?case by simp
next
  case (Suc i)
  have split: "(\<forall>e<Suc i. idx ! e < dims ! e) \<longleftrightarrow> idx ! i < dims ! i \<and> (\<forall>e<i. idx ! e < dims ! e)"
    by (auto simp: less_Suc_eq)
  show ?case
  proof (cases "idx ! i < dims ! i")
    case True
    then show ?thesis unfolding split by (simp add: Suc.IH)
  next
    case False
    then show ?thesis unfolding split by simp
  qed
qed

lemma unflat_loop_nth:
  assumes "d \<le> length dims" "length ind = length dims" "\<forall>e<d. 0 < dims ! e"
  shows "\<exists>ind'. unflat_loop dims d ind temp = Inr ind' \<and> length ind' = length dims \<and>
           (\<forall>e<length dims. ind' ! e =
              (if e < d then (temp div prod_list (drop (Suc e) (take d dims))) mod dims ! e
               else ind ! e))"
  using assms
proof (induction d arbitrary: ind temp)
  case 0
  then show ?case by simp
next
  case (Suc d)
  let ?ind = "ind[d := temp mod dims ! d]"
  let ?temp = "temp div dims ! d"
  have d: "d < length dims" using Suc.prems by simp
  have pos: "dims ! d \<noteq> 0" using Suc.prems by auto
  from Suc.IH [of ?ind ?temp] Suc.prems
  obtain ind' where r: "unflat_loop dims d ?ind ?temp = Inr ind'"
    and len: "length ind' = length dims"
    and nth: "\<forall>e<length dims. ind' ! e =
              (if e < d then (?temp div prod_list (drop (Suc e) (take d dims))) mod dims ! e
               else ?ind ! e)"
    by auto
  have tk: "take (Suc d) dims = take d dims @ [dims ! d]"
    using d by (simp add: take_Suc_conv_app_nth)
  have "ind' ! e = (if e < Suc d then (temp div prod_list (drop (Suc e) (take (Suc d) dims))) mod dims ! e
               else ind ! e)" if e: "e < length dims" for e
  proof -
    consider "e < d" | "e = d" | "d < e" by linarith
    then show ?thesis
    proof cases
      case 1
      then have "drop (Suc e) (take (Suc d) dims) = drop (Suc e) (take d dims) @ [dims ! d]"
        using d by (simp add: tk)
      then have "prod_list (drop (Suc e) (take (Suc d) dims))
          = dims ! d * prod_list (drop (Suc e) (take d dims))" by simp
      then show ?thesis using 1 nth e by (simp add: div_mult2_eq)
    next
      case 2
      then show ?thesis using nth e d Suc.prems by (simp add: tk)
    next
      case 3
      then show ?thesis using nth e by simp
    qed
  qed
  then show ?case using r len pos by simp
qed

lemma unflat_loop_unflatten:
  assumes "length ind = length dims" "\<forall>d\<in>set dims. 0 < d"
  shows "unflat_loop dims (length dims) ind k = Inr (unflatten dims k)"
proof -
  from assms have "\<forall>e<length dims. 0 < dims ! e" by simp
  from unflat_loop_nth [OF le_refl assms(1) this, of k]
  obtain ind' where r: "unflat_loop dims (length dims) ind k = Inr ind'"
    and len: "length ind' = length dims"
    and nth: "\<forall>e<length dims. ind' ! e = (k div prod_list (drop (Suc e) dims)) mod dims ! e"
    by auto
  have "ind' = unflatten dims k"
    by (rule nth_equalityI) (simp_all add: len nth unflatten_nth)
  then show ?thesis using r by simp
qed


subsection \<open>Element access and construction\<close>

lemma operator_call_wrap:
  assumes "length (shape t) = N" "length idx = N"
  shows "operator_call N t idx = vec_read (buffer t) (wrap64 (offset_of (shape t) idx))"
  using assms by (simp add: operator_call_def compute_flat_index_wrap)

lemma offset_small: "k < length (data t) \<Longrightarrow> wrap64 k = k"
  using length_elems_lt [of "buffer t"] by (simp add: wrap64_id)

lemma operator_call_eq:
  assumes "length (shape t) = N" "length idx = N" "offset_of (shape t) idx < length (data t)"
  shows "operator_call N t idx = Inr (data t ! offset_of (shape t) idx)"
  using assms by (simp add: operator_call_wrap offset_small)

lemma operator_call_assign_wrap:
  assumes "length (shape t) = N" "length idx = N"
  shows "operator_call_assign N t idx x =
     (if wrap64 (offset_of (shape t) idx) < length (data t)
      then (None, t\<lparr>buffer := vec_update (buffer t) (wrap64 (offset_of (shape t) idx)) x\<rparr>)
      else (Some UndefinedBehaviour, t))"
  using assms by (simp add: operator_call_assign_def compute_flat_index_wrap)

lemma operator_call_assign_eq:
  assumes "length (shape t) = N" "length idx = N" "offset_of (shape t) idx < length (data t)"
  shows "operator_call_assign N t idx x =
     (None, t\<lparr>buffer := vec_update (buffer t) (offset_of (shape t) idx) x\<rparr>)"
  using assms by (simp add: operator_call_assign_wrap offset_small)

lemma checked_offset:
  assumes "length (shape t) = N" "length idx = N"
  shows "checked_loop (shape t) idx N 0 1 =
     (if \<forall>a<N. idx ! a < shape t ! a then Inr (wrap64 (offset_of (shape t) idx))
      else Inl (OutOfRange ''Index out of range''))"
  using assms by (simp add: checked_loop_eq flat_loop_eq)

lemma Tensor_array_simps [simp]:
  "shape (Tensor_array dims) = dims"
  "data (Tensor_array dims) = replicate (wrap64 (prod_list dims)) 0"
  by (simp_all add: Tensor_array_def total_size_prod)

lemma Tensor_array_small:
  "prod_list dims < size_limit \<Longrightarrow> data (Tensor_array dims) = replicate (prod_list dims) 0"
  by (simp add: wrap64_id)

lemma prod_list_replicate_1 [simp]: "prod_list (replicate N (Suc 0)) = Suc 0"
  by (induction N) simp_all

lemma Tensor_default_eq: "Tensor_default_p0 N = Tensor_array (replicate N 1)"
  by (simp add: tensor_eq_iff Tensor_default_p0_def)

lemma Tensor_dims_h_eq: "Tensor_dims_h args = Tensor_array (map static_cast_size_t args)"
proof -
  have "a < size_limit \<Longrightarrow> fold (\<lambda>d total. wrap64 (total * static_cast_size_t d)) args a
      = wrap64 (a * prod_list (map static_cast_size_t args))" for a
  proof (induction args arbitrary: a)
    case Nil
    then show ?case by (simp add: wrap64_id)
  next
    case (Cons d ds)
    have "fold (\<lambda>d total. wrap64 (total * static_cast_size_t d)) ds (wrap64 (a * static_cast_size_t d))
        = wrap64 (wrap64 (a * static_cast_size_t d) * prod_list (map static_cast_size_t ds))"
      by (rule Cons.IH) (rule wrap64_lt)
    then show ?case by (simp add: wrap64_mult_left mult.assoc)
  qed
  from this [of 1] show ?thesis
    by (simp add: tensor_eq_iff Tensor_dims_h_def)
qed

lemma operator_call_assign_frame:
  assumes "operator_call_assign N t idx x = (r, t')"
  shows "shape t' = shape t \<and> length (data t') = length (data t)"
  using assms
  by (auto simp: operator_call_assign_def vec_write_def vec_ref_def split: if_splits)

lemma operator_call_assign_c_frame:
  assumes "operator_call_assign_c N t idx x = (r, t')"
  shows "shape t' = shape t \<and> length (data t') = length (data t)"
  using assms
  by (auto simp: operator_call_assign_c_def vec_write_def vec_ref_def bind_e_def
      split: if_splits sum.splits)


subsection \<open>Steps whose only failure is undefined behaviour\<close>

lemma bind_e_Inl:
  "bind_e r f = Inl e \<Longrightarrow> r = Inl e \<or> (\<exists>x. r = Inr x \<and> f x = Inl e)"
  by (cases r) simp_all

lemma for_upto_Inl:
  "for_upto n body s = Inl e \<Longrightarrow> \<exists>i s'. body i s' = Inl e"
proof (induction n)
  case 0
  then show ?case by simp
next
  case (Suc n)
  then show ?case by (auto dest!: bind_e_Inl)
qed

lemma unflat_loop_Inl: "unflat_loop dims d ind temp = Inl e \<Longrightarrow> e = UndefinedBehaviour"
  by (induction d arbitrary: ind temp) (auto split: if_splits)

lemma vec_read_Inl: "vec_read v k = Inl e \<Longrightarrow> e = UndefinedBehaviour"
  by (auto simp: vec_read_def vec_ref_def split: if_splits)

lemma operator_call_Inl: "operator_call N t idx = Inl e \<Longrightarrow> e = UndefinedBehaviour"
  by (auto simp: operator_call_def dest: vec_read_Inl)

lemma operator_call_assign_Inl:
  "upd (operator_call_assign N t idx x) = Inl e \<Longrightarrow> e = UndefinedBehaviour"
  by (auto simp: operator_call_assign_def vec_write_def vec_ref_def upd_def split: if_splits)

lemma dot_body_Inl: "dot_body_p0 N A B idx k acc = Inl e \<Longrightarrow> e = UndefinedBehaviour"
  by (auto simp: dot_body_p0_def Let_def split: option.splits
      dest!: bind_e_Inl dest: operator_call_Inl)

lemma matrix_body_Inl: "matrix_body_p0 N A B rs i st = Inl e \<Longrightarrow> e = UndefinedBehaviour"
  by (auto simp: matrix_body_p0_def split: option.splits
      dest!: bind_e_Inl for_upto_Inl dest: unflat_loop_Inl dot_body_Inl operator_call_assign_Inl)

lemma spelled_length: "spelled N a = Some args \<Longrightarrow> length args = N"
  by (auto simp: spelled_def split: if_splits)

lemma make_result_Inr: "\<exists>r. make_result_p0 N s = Inr (r :: ('a::zero) tensor)"
  by (auto simp: make_result_p0_def Tensor_dims_p0_def dest: spelled_length split: option.splits)

lemma matrix_product_compute_Inl:
  fixes A B :: "('a::semiring_0) tensor"
  assumes "bind_e (make_result_p0 N rs) (\<lambda>result.
              bind_e (for_upto n (matrix_body_p0 N A B rs) (replicate N 0, result))
                (\<lambda>st. Inr (snd st))) = Inl e"
  shows "e = UndefinedBehaviour"
proof -
  obtain r :: "'a tensor" where r: "make_result_p0 N rs = Inr r"
    using make_result_Inr by blast
  with assms have "for_upto n (matrix_body_p0 N A B rs) (replicate N 0, r) = Inl e"
    by (auto dest!: bind_e_Inl)
  then show ?thesis by (auto dest!: for_upto_Inl dest: matrix_body_Inl)
qed

lemma matrix_product_p0_pass:
  assumes "2 \<le> N" "shape A ! (N - 1) = shape B ! (N - 2)"
    and "\<forall>i<N - 2. shape A ! i = shape B ! i"
  shows "matrix_product_p0 N A B =
     bind_e (make_result_p0 N ((shape A)[N - 1 := shape B ! (N - 1), N - 2 := shape A ! (N - 2)]))
       (\<lambda>result. bind_e (for_upto
            (total_size ((shape A)[N - 1 := shape B ! (N - 1), N - 2 := shape A ! (N - 2)]))
            (matrix_body_p0 N A B ((shape A)[N - 1 := shape B ! (N - 1), N - 2 := shape A ! (N - 2)]))
            (replicate N 0, result))
          (\<lambda>st. Inr (snd st)))"
  using assms by (simp add: matrix_product_p0_def Let_def list_all_iff)

lemma msgs_differ: "incompatible_msg \<noteq> batch_msg"
  by (simp add: incompatible_msg_def batch_msg_def)

subsection \<open>The elementwise loops\<close>

lemma wf_wrap: "length (data t) = n \<Longrightarrow> wrap64 n = n"
  using length_elems_lt [of "buffer t"] by (auto simp: wrap64_id)

lemma wf_small: "length (data t) = n \<Longrightarrow> n < size_limit"
  using length_elems_lt [of "buffer t"] by auto

lemma bcast_valid:
  assumes len: "length sa = length sb" and cb: "can_broadcast sa sb"
    and posb: "\<forall>d\<in>set sb. 0 < d" and posa: "\<forall>d\<in>set sa. 0 < d"
  shows "valid_index sb (map (\<lambda>d. broadcast_index (unflatten sa i ! d) (sb ! d)) [0..<length sb])"
proof (rule valid_indexI)
  show "length (map (\<lambda>d. broadcast_index (unflatten sa i ! d) (sb ! d)) [0..<length sb]) = length sb"
    by simp
next
  fix e assume e: "e < length sb"
  have "valid_index sa (unflatten sa i)" using posa by (rule unflatten_valid)
  then have u: "unflatten sa i ! e < sa ! e" using e len by (simp add: valid_index_nth)
  have c: "sa ! e = sb ! e \<or> sa ! e = 1 \<or> sb ! e = 1"
    using cb e len by (auto simp: can_broadcast_def list_all_iff)
  have p: "0 < sb ! e" using posb e by simp
  have "broadcast_index (unflatten sa i ! e) (sb ! e) < sb ! e"
    using u c p by (auto simp: broadcast_index_def)
  then show "map (\<lambda>d. broadcast_index (unflatten sa i ! d) (sb ! d)) [0..<length sb] ! e < sb ! e"
    using e by simp
qed

lemma bcast_offset_lt:
  assumes "length sa = length sb" "can_broadcast sa sb" "\<forall>d\<in>set sb. 0 < d" "\<forall>d\<in>set sa. 0 < d"
  shows "bcast_offset sa sb i < prod_list sb"
  unfolding bcast_offset_def by (rule offset_of_lt) (rule bcast_valid [OF assms])

lemma elementwise_body_step:
  assumes lt: "length (shape t) = N" and lo: "length (shape other) = N"
    and dt: "length (data t) = prod_list (shape t)"
    and dother: "length (data other) = prod_list (shape other)"
    and cb: "can_broadcast (shape t) (shape other)"
    and pos: "\<forall>d\<in>set (shape other). 0 < d"
    and i: "i < length (data t)"
    and st: "length (fst st) = N" "length (data (snd st)) = length (data t)"
  shows "elementwise_body_p0 f N t other i st =
     Inr (unflatten (shape t) i,
          (snd st)\<lparr>buffer := vec_update (buffer (snd st)) i
             (f (data t ! i) (data other ! bcast_offset (shape t) (shape other) i))\<rparr>)"
proof -
  have "0 < prod_list (shape t)" using i dt by simp
  then have posa: "\<forall>d\<in>set (shape t). 0 < d" by (simp add: prod_list_pos)
  have un: "unflat_loop (shape t) N (fst st) i = Inr (unflatten (shape t) i)"
    using unflat_loop_unflatten [of "fst st" "shape t" i] st lt posa by simp
  let ?oi = "map (\<lambda>d. broadcast_index (unflatten (shape t) i ! d) (shape other ! d)) [0..<N]"
  have "bcast_offset (shape t) (shape other) i < prod_list (shape other)"
    using lt lo cb pos posa by (intro bcast_offset_lt) simp_all
  then have rd: "bcast_offset (shape t) (shape other) i < length (data other)"
    using dother by simp
  then have "offset_of (shape other) ?oi < size_limit"
    using length_elems_lt [of "buffer other"] lo by (simp add: bcast_offset_def)
  then have cfi: "compute_flat_index N (shape other) ?oi = bcast_offset (shape t) (shape other) i"
    using lo by (simp add: compute_flat_index_eq bcast_offset_def)
  show ?thesis
    unfolding elementwise_body_p0_def un bind_e_simps Let_def cfi
    using i rd st by simp
qed

lemma elementwise_p0_result:
  fixes t other :: "('a::zero) tensor"
  assumes lt: "length (shape t) = N" and lo: "length (shape other) = N"
    and dt: "length (data t) = prod_list (shape t)"
    and dother: "length (data other) = prod_list (shape other)"
    and cb: "can_broadcast (shape t) (shape other)"
    and pos: "\<forall>d\<in>set (shape other). 0 < d"
  shows "elementwise_p0 f N t other =
     Inr (Tensor (shape t)
          (map (\<lambda>i. f (data t ! i) (data other ! bcast_offset (shape t) (shape other) i))
             [0..<length (data t)]))"
proof -
  let ?n = "length (data t)"
  let ?g = "\<lambda>i. f (data t ! i) (data other ! bcast_offset (shape t) (shape other) i)"
  let ?P = "\<lambda>m (st :: nat list \<times> 'a tensor). length (fst st) = N \<and> shape (snd st) = shape t \<and>
              length (data (snd st)) = ?n \<and> (\<forall>j<m. data (snd st) ! j = ?g j)"
  have init: "?P 0 (replicate N 0, Tensor_array (shape t))"
    using dt by (simp add: wf_wrap [OF dt])
  have step: "\<exists>s'. elementwise_body_p0 f N t other i st = Inr s' \<and> ?P (Suc i) s'"
    if "i < ?n" "?P i st" for i st
  proof -
    have "elementwise_body_p0 f N t other i st =
       Inr (unflatten (shape t) i, (snd st)\<lparr>buffer := vec_update (buffer (snd st)) i (?g i)\<rparr>)"
      using that by (intro elementwise_body_step assms) simp_all
    moreover have "?P (Suc i) (unflatten (shape t) i,
        (snd st)\<lparr>buffer := vec_update (buffer (snd st)) i (?g i)\<rparr>)"
      using that lt by (auto simp: nth_list_update less_Suc_eq)
    ultimately show ?thesis by blast
  qed
  have "\<exists>s'. for_upto ?n (elementwise_body_p0 f N t other) (replicate N 0, Tensor_array (shape t)) = Inr s' \<and> ?P ?n s'"
    using init step by (rule for_upto_inv [where P = ?P])
  then obtain s' where run: "for_upto ?n (elementwise_body_p0 f N t other) (replicate N 0, Tensor_array (shape t)) = Inr s'"
    and fin: "?P ?n s'"
    by blast
  have "data (snd s') = map ?g [0..<?n]"
    by (rule nth_equalityI) (use fin in simp_all)
  then have "snd s' = Tensor (shape t) (map ?g [0..<?n])"
    using fin by (intro tensor_eqI) simp_all
  then show ?thesis
    using cb run by (simp add: elementwise_p0_def)
qed


subsection \<open>The transposes at rank 2\<close>

lemma spelled_2 [simp]: "spelled 2 a = Some [a ! 0, a ! 1]"
  by (simp add: spelled_def)

lemma swap_last2_2 [simp]: "swap_last2 2 [a, b] = [b, a]"
  by (simp add: swap_last2_def numeral_2_eq_2)










subsection \<open>The loops of the matrix product\<close>











subsection \<open>The broadcasting product of Tensor.h\<close>

lemma can_broadcast_nth:
  "can_broadcast a b \<longleftrightarrow> (\<forall>i<length a. a ! i = b ! i \<or> a ! i = 1 \<or> b ! i = 1)"
  by (auto simp: can_broadcast_def list_all_iff)

lemma broadcast_shape_loop_ok:
  assumes la: "length a = N" and cb: "can_broadcast a b" and l0: "length s0 = N"
  shows "\<exists>rs. for_upto N (broadcast_shape_body_h a b) s0 = Inr rs \<and> length rs = N \<and>
           (\<forall>i<N. rs ! i = (if a ! i = 1 then b ! i else a ! i))"
proof -
  let ?P = "\<lambda>m rs. length rs = N \<and> (\<forall>i<m. rs ! i = (if a ! i = 1 then b ! i else a ! i))"
  have init: "?P 0 s0" using l0 by simp
  have step: "\<exists>s'. broadcast_shape_body_h a b i rs = Inr s' \<and> ?P (Suc i) s'"
    if i: "i < N" and P: "?P i rs" for i rs
  proof -
    have c: "a ! i = b ! i \<or> a ! i = 1 \<or> b ! i = 1"
      using cb i la by (simp add: can_broadcast_nth)
    let ?v = "if a ! i = 1 then b ! i else a ! i"
    have "broadcast_shape_body_h a b i rs = Inr (rs[i := ?v])"
      using c by (auto simp: broadcast_shape_body_h_def)
    moreover have "?P (Suc i) (rs[i := ?v])"
      using P i by (auto simp: nth_list_update less_Suc_eq)
    ultimately show ?thesis by blast
  qed
  show ?thesis
    using init step by (rule for_upto_inv [where P = ?P])
qed

lemma broadcast_shape_body_Inl:
  "broadcast_shape_body_h a b i rs = Inl e \<Longrightarrow>
     e = InvalidArgument ''Shapes incompatibles para broadcasting''"
  by (auto simp: broadcast_shape_body_h_def split: if_splits)

lemma broadcast_shape_loop_fail:
  assumes "\<exists>i<n. a ! i \<noteq> b ! i \<and> a ! i \<noteq> 1 \<and> b ! i \<noteq> 1"
  shows "for_upto n (broadcast_shape_body_h a b) s0 =
     Inl (InvalidArgument ''Shapes incompatibles para broadcasting'')"
  using assms
proof (induction n)
  case 0
  then show ?case by simp
next
  case (Suc n)
  let ?e = "InvalidArgument ''Shapes incompatibles para broadcasting''"
  show ?case
  proof (cases "for_upto n (broadcast_shape_body_h a b) s0")
    case (Inl e)
    then have "e = ?e" by (auto dest!: for_upto_Inl dest: broadcast_shape_body_Inl)
    then show ?thesis using Inl by simp
  next
    case (Inr rs)
    have "\<not> (\<exists>i<n. a ! i \<noteq> b ! i \<and> a ! i \<noteq> 1 \<and> b ! i \<noteq> 1)"
      using Suc.IH Inr by auto
    then have "a ! n \<noteq> b ! n \<and> a ! n \<noteq> 1 \<and> b ! n \<noteq> 1"
      using Suc.prems by (auto simp: less_Suc_eq)
    then have "broadcast_shape_body_h a b n rs = Inl ?e"
      by (simp add: broadcast_shape_body_h_def)
    then show ?thesis using Inr by simp
  qed
qed

lemma broadcast_read_valid:
  assumes la: "length a = N" and lrs: "length rs = N"
    and v: "valid_index rs idx"
    and rs: "\<forall>i<N. a ! i \<noteq> 1 \<longrightarrow> rs ! i = a ! i"
  shows "valid_index a (map (\<lambda>i. if a ! i = 1 then 0 else idx ! i) [0..<N])"
proof (rule valid_indexI)
  show "length (map (\<lambda>i. if a ! i = 1 then 0 else idx ! i) [0..<N]) = length a"
    using la by simp
next
  fix e assume "e < length a"
  then have e: "e < N" using la by simp
  have "idx ! e < rs ! e" using valid_index_nth [OF v, of e] e lrs by simp
  then show "map (\<lambda>i. if a ! i = 1 then 0 else idx ! i) [0..<N] ! e < a ! e"
    using e rs by auto
qed

lemma times_body_step:
  fixes A B :: "('a::times) tensor"
  assumes la: "length (shape A) = N" and lb: "length (shape B) = N"
    and dA: "length (data A) = prod_list (shape A)"
    and dB: "length (data B) = prod_list (shape B)"
    and lrs: "length rs = N"
    and ra: "\<forall>i<N. shape A ! i \<noteq> 1 \<longrightarrow> rs ! i = shape A ! i"
    and rb: "\<forall>i<N. shape B ! i \<noteq> 1 \<longrightarrow> rs ! i = shape B ! i"
    and i: "i < prod_list rs"
    and st: "length (fst st) = N" "length (data (snd st)) = prod_list rs"
  shows "times_body_h N A B rs i st =
     Inr (unflatten rs i,
          (snd st)\<lparr>buffer := vec_update (buffer (snd st)) (i) (data A ! offset_of (shape A) (map (\<lambda>d. if shape A ! d = 1 then 0 else unflatten rs i ! d) [0..<N]) * data B ! offset_of (shape B) (map (\<lambda>d. if shape B ! d = 1 then 0 else unflatten rs i ! d) [0..<N]))\<rparr>)"
proof -
  have "0 < prod_list rs" using i by simp
  then have pos: "\<forall>d\<in>set rs. 0 < d" by (simp add: prod_list_pos)
  let ?idx = "unflatten rs i"
  let ?ia = "map (\<lambda>d. if shape A ! d = 1 then 0 else ?idx ! d) [0..<N]"
  let ?ib = "map (\<lambda>d. if shape B ! d = 1 then 0 else ?idx ! d) [0..<N]"
  have un0: "unflat_loop rs (length rs) (fst st) i = Inr ?idx"
    using st lrs pos by (intro unflat_loop_unflatten) simp_all
  have un: "unflat_loop rs N (fst st) i = Inr ?idx"
    using un0 unfolding lrs .
  have v: "valid_index rs ?idx" using pos by (rule unflatten_valid)
  have va: "valid_index (shape A) ?ia" using la lrs v ra by (rule broadcast_read_valid)
  have vb: "valid_index (shape B) ?ib" using lb lrs v rb by (rule broadcast_read_valid)
  have rda: "operator_call N A ?ia = Inr (data A ! offset_of (shape A) ?ia)"
    using offset_of_lt [OF va] la dA by (simp add: operator_call_eq)
  have rdb: "operator_call N B ?ib = Inr (data B ! offset_of (shape B) ?ib)"
    using offset_of_lt [OF vb] lb dB by (simp add: operator_call_eq)
  show ?thesis
    unfolding times_body_h_def un bind_e_simps Let_def rda rdb
    using i st by simp
qed

subsection \<open>Tensors given by their shape and elements\<close>


lemma Tensor_shape_data [simp]: "Tensor (shape t) (data t) = t"
  using tensor_eqI [of t "shape t" "data t"] by simp





lemma operator_times_h_fails:
  assumes la: "length (shape A) = N" and ncb: "\<not> can_broadcast (shape A) (shape B)"
  shows "operator_times_h N A B = Inl (InvalidArgument ''Shapes incompatibles para broadcasting'')"
proof -
  have "\<exists>i<N. shape A ! i \<noteq> shape B ! i \<and> shape A ! i \<noteq> 1 \<and> shape B ! i \<noteq> 1"
    using la ncb by (auto simp: can_broadcast_nth)
  then have "for_upto N (broadcast_shape_body_h (shape A) (shape B)) (replicate N 0) =
      Inl (InvalidArgument ''Shapes incompatibles para broadcasting'')"
    by (rule broadcast_shape_loop_fail)
  then show ?thesis by (simp add: operator_times_h_def)
qed

lemma operator_times_h_result:
  fixes A B :: "('a::{zero,times}) tensor"
  assumes la: "length (shape A) = N" and lb: "length (shape B) = N"
    and dA: "length (data A) = prod_list (shape A)" and dB: "length (data B) = prod_list (shape B)"
    and cb: "can_broadcast (shape A) (shape B)"
    and rs: "rs = map (\<lambda>i. if shape A ! i = 1 then shape B ! i else shape A ! i) [0..<N]"
    and small: "prod_list rs < size_limit"
  shows "operator_times_h N A B =
     Inr (Tensor rs (map (\<lambda>j.
        data A ! offset_of (shape A)
          (map (\<lambda>d. if shape A ! d = 1 then 0 else unflatten rs j ! d) [0..<N])
        * data B ! offset_of (shape B)
          (map (\<lambda>d. if shape B ! d = 1 then 0 else unflatten rs j ! d) [0..<N]))
       [0..<prod_list rs]))"
proof -
  from broadcast_shape_loop_ok [OF la cb, of "replicate N 0"]
  obtain rs' where shp: "for_upto N (broadcast_shape_body_h (shape A) (shape B)) (replicate N 0) = Inr rs'"
    and lrs': "length rs' = N"
    and rsn': "\<forall>i<N. rs' ! i = (if shape A ! i = 1 then shape B ! i else shape A ! i)"
    by auto
  have "rs' = rs"
    unfolding rs by (rule nth_equalityI) (simp_all add: lrs' rsn')
  with shp lrs' rsn'
  have shp: "for_upto N (broadcast_shape_body_h (shape A) (shape B)) (replicate N 0) = Inr rs"
    and lrs: "length rs = N"
    and rsn: "\<forall>i<N. rs ! i = (if shape A ! i = 1 then shape B ! i else shape A ! i)"
    by simp_all
  have c: "shape A ! i = shape B ! i \<or> shape A ! i = 1 \<or> shape B ! i = 1" if "i < N" for i
    using cb that la by (simp add: can_broadcast_nth)
  have ra: "\<forall>i<N. shape A ! i \<noteq> 1 \<longrightarrow> rs ! i = shape A ! i" using rsn by simp
  have rb: "\<forall>i<N. shape B ! i \<noteq> 1 \<longrightarrow> rs ! i = shape B ! i" using rsn c by auto
  have w: "wrap64 (prod_list rs) = prod_list rs" using small by (rule wrap64_id)
  let ?g = "\<lambda>idx. data A ! offset_of (shape A)
                    (map (\<lambda>d. if shape A ! d = 1 then 0 else idx ! d) [0..<N])
                * data B ! offset_of (shape B)
                    (map (\<lambda>d. if shape B ! d = 1 then 0 else idx ! d) [0..<N])"
  let ?P = "\<lambda>m (st :: nat list \<times> 'a tensor). length (fst st) = N \<and> shape (snd st) = rs \<and>
      length (data (snd st)) = prod_list rs \<and> (\<forall>j<m. data (snd st) ! j = ?g (unflatten rs j))"
  have init: "?P 0 (replicate N 0, Tensor_array rs)" by (simp add: w)
  have step: "\<exists>s'. times_body_h N A B rs i st = Inr s' \<and> ?P (Suc i) s'"
    if i: "i < prod_list rs" and P: "?P i st" for i st
  proof -
    have "times_body_h N A B rs i st =
        Inr (unflatten rs i, (snd st)\<lparr>buffer := vec_update (buffer (snd st)) i (?g (unflatten rs i))\<rparr>)"
      using i P by (intro times_body_step [OF la lb dA dB lrs ra rb]) simp_all
    moreover have "?P (Suc i) (unflatten rs i,
        (snd st)\<lparr>buffer := vec_update (buffer (snd st)) i (?g (unflatten rs i))\<rparr>)"
      using i P lrs by (auto simp: nth_list_update less_Suc_eq)
    ultimately show ?thesis by blast
  qed
  have "\<exists>s'. for_upto (prod_list rs) (times_body_h N A B rs) (replicate N 0, Tensor_array rs)
          = Inr s' \<and> ?P (prod_list rs) s'"
    using init step by (rule for_upto_inv [where P = ?P])
  then obtain s' where run: "for_upto (prod_list rs) (times_body_h N A B rs)
        (replicate N 0, Tensor_array rs) = Inr s'"
    and fin: "?P (prod_list rs) s'"
    by blast
  have res: "operator_times_h N A B = Inr (snd s')"
    using shp run by (simp add: operator_times_h_def tensor_size_def w)
  have "data (snd s') = map (\<lambda>j. ?g (unflatten rs j)) [0..<prod_list rs]"
    by (rule nth_equalityI) (use fin in \<open>simp_all cong: if_cong\<close>)
  then have "snd s' = Tensor rs (map (\<lambda>j. ?g (unflatten rs j)) [0..<prod_list rs])"
    using fin by (intro tensor_eqI) simp_all
  with res show ?thesis by simp
qed

section \<open>Reshape\<close>

text \<open>
  Claim C3, as amended. In Tensor.h and in the header of the CMakeLists.txt part,
  \<open>reshape\<close> forms the product of the new shape in \<open>size_t\<close>, that is modulo \<open>2^64\<close>, and
  succeeds exactly when this value equals the element count; on success only the shape
  is replaced and the buffer is the old one, so the element at flat position \<open>k\<close> stays at
  position \<open>k\<close>; otherwise it throws \<open>std::invalid_argument\<close> and leaves shape and data as
  they were. In part_000, \<open>reshape\<close> with \<open>N\<close> arguments never fails: it installs the new
  shape and resizes the buffer to the new product, again modulo \<open>2^64\<close>, keeping the
  leading elements and zero-filling new ones.
\<close>

theorem reshape_policies:
  fixes t :: "('a::zero) tensor"
  shows
    "(fst (reshape_h new_shape t) = None \<longleftrightarrow> wrap64 (prod_list new_shape) = tensor_size t) \<and>
     (wrap64 (prod_list new_shape) = tensor_size t \<longrightarrow>
        reshape_h new_shape t = (None, t\<lparr>shape := new_shape\<rparr>) \<and>
        reshape_c new_shape t = (None, t\<lparr>shape := new_shape\<rparr>)) \<and>
     (wrap64 (prod_list new_shape) \<noteq> tensor_size t \<longrightarrow>
        reshape_h new_shape t =
          (Some (InvalidArgument ''Nuevo shape incompatible con cantidad de elementos''), t) \<and>
        reshape_c new_shape t =
          (Some (InvalidArgument ''Total size of new shape does not match tensor size''), t)) \<and>
     (length new_shape = N \<longrightarrow>
        fst (reshape_p0 N new_shape t) = None \<and>
        shape (snd (reshape_p0 N new_shape t)) = new_shape \<and>
        data (snd (reshape_p0 N new_shape t)) =
          take (wrap64 (prod_list new_shape)) (data t)
          @ replicate (wrap64 (prod_list new_shape) - tensor_size t) 0)"
  by (auto simp: reshape_h_def reshape_c_def reshape_p0_def total_size_prod tensor_size_def
      Let_def)

text \<open>
  A \<open>[2,3]\<close> tensor reshaped to \<open>[3,2]\<close> and to \<open>[3,3]\<close> by Tensor.h, to
  \<open>[9223372036854775811, 2]\<close>, whose product is \<open>2^64 + 6\<close>, by the header of the
  CMakeLists.txt part, and to \<open>[2,2]\<close> by part_000.
\<close>

theorem reshape_policies_witness:
  "reshape_h [3, 2] (Tensor [2, 3] [0, 0, 0, 0, 0, 42 :: int])
     = (None, Tensor [3, 2] [0, 0, 0, 0, 0, 42]) \<and>
   reshape_h [3, 3] (Tensor [2, 3] [0, 0, 0, 0, 0, 42 :: int])
     = (Some (InvalidArgument ''Nuevo shape incompatible con cantidad de elementos''),
        Tensor [2, 3] [0, 0, 0, 0, 0, 42]) \<and>
   reshape_c [9223372036854775811, 2] (Tensor [2, 3] [0, 0, 0, 0, 0, 42 :: int])
     = (None, Tensor [9223372036854775811, 2] [0, 0, 0, 0, 0, 42]) \<and>
   data (snd (reshape_p0 2 [2, 2] (Tensor [2, 3] [1, 2, 3, 4, 5, 6 :: int]))) = [1, 2, 3, 4]"
proof -
  let ?t = "Tensor [2, 3] [0, 0, 0, 0, 0, 42 :: int]"
  let ?u = "Tensor [2, 3] [1, 2, 3, 4, 5, 6 :: int]"
  have n: "tensor_size ?t = 6" "tensor_size ?u = 6" "data ?u = [1, 2, 3, 4, 5, 6]"
    by (simp_all add: tensor_size_def size_limit_def)
  have w: "wrap64 (prod_list [3, 2]) = 6" "wrap64 (prod_list [3, 3]) = 9"
     "wrap64 (prod_list [9223372036854775811, 2]) = 6" "wrap64 (prod_list [2, 2]) = 4"
    by (simp_all add: wrap64_def size_limit_def)
  have e: "?t\<lparr>shape := s\<rparr> = Tensor s [0, 0, 0, 0, 0, 42]" for s
    by (simp add: Tensor_def)
  from reshape_policies [of "[3, 2]" ?t 2]
  have 1: "reshape_h [3, 2] ?t = (None, Tensor [3, 2] [0, 0, 0, 0, 0, 42])"
    unfolding w n e by simp
  from reshape_policies [of "[3, 3]" ?t 2]
  have 2: "reshape_h [3, 3] ?t =
      (Some (InvalidArgument ''Nuevo shape incompatible con cantidad de elementos''), ?t)"
    unfolding w n by simp
  from reshape_policies [of "[9223372036854775811, 2]" ?t 2]
  have 3: "reshape_c [9223372036854775811, 2] ?t
      = (None, Tensor [9223372036854775811, 2] [0, 0, 0, 0, 0, 42])"
    unfolding w n e by simp
  from reshape_policies [of "[2, 2]" ?u 2]
  have 4: "data (snd (reshape_p0 2 [2, 2] ?u)) = [1, 2, 3, 4]"
    unfolding w n by simp
  from 1 2 3 4 show ?thesis by simp
qed

text \<open>
  The claim as stated fails in two ways. On part_000, reshaping a \<open>[2,3]\<close> tensor to
  \<open>[3,3]\<close> does not fail, it grows the buffer from 6 to 9 elements. On Tensor.h,
  reshaping a tensor of 6 elements to \<open>[9223372036854775811, 2]\<close> succeeds although the
  product of the new shape, \<open>2^64 + 6\<close>, is not 6.
\<close>

theorem reshape_grows_or_wraps:
  "fst (reshape_p0 2 [3, 3] (Tensor [2, 3] [1, 2, 3, 4, 5, 6 :: int])) = None \<and>
   data (snd (reshape_p0 2 [3, 3] (Tensor [2, 3] [1, 2, 3, 4, 5, 6 :: int])))
     = [1, 2, 3, 4, 5, 6, 0, 0, 0] \<and>
   prod_list [3, 3] \<noteq> tensor_size (Tensor [2, 3] [1, 2, 3, 4, 5, 6 :: int]) \<and>
   fst (reshape_h [9223372036854775811, 2] (Tensor [2, 3] [1, 2, 3, 4, 5, 6 :: int])) = None \<and>
   prod_list [9223372036854775811, 2] \<noteq> tensor_size (Tensor [2, 3] [1, 2, 3, 4, 5, 6 :: int])"
proof -
  let ?u = "Tensor [2, 3] [1, 2, 3, 4, 5, 6 :: int]"
  have n: "tensor_size ?u = 6" "data ?u = [1, 2, 3, 4, 5, 6]"
    by (simp_all add: tensor_size_def size_limit_def)
  have w: "wrap64 (prod_list [3, 3]) = 9" "wrap64 (prod_list [9223372036854775811, 2]) = 6"
    by (simp_all add: wrap64_def size_limit_def)
  have r: "replicate 3 (0::int) = [0, 0, 0]" by (simp add: eval_nat_numeral)
  have 1: "fst (reshape_p0 2 [3, 3] ?u) = None"
    by (simp add: reshape_p0_def Let_def)
  have 2: "data (snd (reshape_p0 2 [3, 3] ?u)) = [1, 2, 3, 4, 5, 6, 0, 0, 0]"
    unfolding reshape_p0_def total_size_prod w Let_def using n r
    by (simp add: wrap64_def size_limit_def)
  have 3: "fst (reshape_h [9223372036854775811, 2] ?u) = None"
    unfolding reshape_h_def total_size_prod w Let_def using n by (simp add: tensor_size_def)
  from 1 2 3 show ?thesis unfolding n by simp
qed

text \<open>
  The variadic \<open>reshape\<close> of the CMakeLists.txt part casts its arguments first, so
  \<open>reshape(-2, -3)\<close> on 6 elements succeeds as well.
\<close>

lemma reshape_dims_c_negative:
  "fst (reshape_dims_c [- 2, - 3] (Tensor [2, 3] [1, 2, 3, 4, 5, 6 :: int])) = None"
proof -
  have c: "map static_cast_size_t [- 2, - 3] = [18446744073709551614, 18446744073709551613]"
    by (simp add: static_cast_size_t_def size_limit_def)
  have w: "wrap64 (prod_list [18446744073709551614, 18446744073709551613]) = 6"
    by (simp add: wrap64_def size_limit_def)
  have n: "length (data (Tensor [2, 3] [1, 2, 3, 4, 5, 6 :: int])) = 6"
    by (simp add: size_limit_def)
  show ?thesis
    unfolding reshape_dims_c_def reshape_c_def c total_size_prod w n Let_def by simp
qed

section \<open>Element access\<close>




text \<open>
  A negative index of a signed 64-bit type reaches the checked \<open>operator()\<close> as a value
  of at least \<open>2^63\<close>, so it is rejected like an index that is too large, for every
  axis size below \<open>2^63\<close>.
\<close>

lemma static_cast_negative:
  assumes "j < 0" "- (2 ^ 63) \<le> j"
  shows "2 ^ 63 \<le> static_cast_size_t j"
proof -
  define M :: int where "M = 2 ^ 64"
  have M: "M = 2 * 2 ^ 63" by (simp add: M_def)
  have "j mod M = (j + M) mod M" by simp
  also have "\<dots> = j + M" using assms M by (intro mod_pos_pos_trivial) simp_all
  finally have "2 ^ 63 \<le> j mod M" using assms M by simp
  then have "nat (2 ^ 63) \<le> nat (j mod M)" by (rule nat_mono)
  then show ?thesis by (simp add: static_cast_size_t_def M_def size_limit_def)
qed

lemma static_cast_nonnegative:
  assumes "0 \<le> j" "j < 2 ^ 64"
  shows "static_cast_size_t j = nat j"
  using assms by (simp add: static_cast_size_t_def size_limit_def)

lemma static_cast_minus_1: "static_cast_size_t (- 1) = 18446744073709551615"
  by (simp add: static_cast_size_t_def size_limit_def)

lemma negative_index_rejected:
  assumes "length (shape t) = N" "length js = N"
    and "a < N" "js ! a < 0" "- (2 ^ 63) \<le> js ! a" "shape t ! a < 2 ^ 63"
  shows "operator_call_c N t (map static_cast_size_t js) = Inl (OutOfRange ''Index out of range'')"
    and "operator_call_assign_c N t (map static_cast_size_t js) x =
           (Some (OutOfRange ''Index out of range''), t)"
proof -
  have "2 ^ 63 \<le> static_cast_size_t (js ! a)"
    using assms(4,5) by (rule static_cast_negative)
  then have "\<not> map static_cast_size_t js ! a < shape t ! a"
    using assms by simp
  then have bad: "\<not> (\<forall>a<N. map static_cast_size_t js ! a < shape t ! a)"
    using assms(3) by blast
  have len: "length (map static_cast_size_t js) = N" using assms(2) by simp
  show "operator_call_c N t (map static_cast_size_t js) = Inl (OutOfRange ''Index out of range'')"
    unfolding operator_call_c_def checked_offset [OF assms(1) len] using bad by auto
  show "operator_call_assign_c N t (map static_cast_size_t js) x =
           (Some (OutOfRange ''Index out of range''), t)"
    unfolding operator_call_assign_c_def checked_offset [OF assms(1) len] using bad by auto
qed

lemma negative_index_example:
  "operator_call_c 2 (Tensor [2, 3] [1, 2, 3, 4, 5, 6 :: int])
     (map static_cast_size_t [0, - 1]) = Inl (OutOfRange ''Index out of range'')"
  by (rule negative_index_rejected(1) [where a = 1]) simp_all

section \<open>Construction\<close>

text \<open>
  Claim C10, as amended. Every construction path of part_000 and Tensor.h (the
  constructor from \<open>N\<close> dimension values, the constructor from a shape array, and the
  default constructor of part_000) yields a buffer in which every element is \<open>T{}\<close>, the
  zero of the element type; its length is the product of the dimensions modulo \<open>2^64\<close>.
  When the product of the dimensions is below \<open>2^64\<close>, reading the new tensor at any
  in-bounds index returns that zero; so does reading the default tensor.
\<close>

theorem fresh_tensor_is_zero:
  assumes "length dims = N"
  shows
    "Tensor_dims_p0 N dims = Inr (Tensor_array dims :: ('a::zero) tensor) \<and>
     (Tensor_dims_h args :: 'a tensor) = Tensor_array (map static_cast_size_t args) \<and>
     data (Tensor_array dims :: 'a tensor) = replicate (wrap64 (prod_list dims)) 0 \<and>
     data (Tensor_default_p0 N :: 'a tensor) = [0] \<and>
     (prod_list dims < size_limit \<longrightarrow>
        (\<forall>idx. length idx = N \<and> (\<forall>a<N. idx ! a < dims ! a) \<longrightarrow>
           operator_call N (Tensor_array dims :: 'a tensor) idx = Inr 0)) \<and>
     (\<forall>idx. length idx = N \<and> (\<forall>a<N. idx ! a < 1) \<longrightarrow>
        operator_call N (Tensor_default_p0 N :: 'a tensor) idx = Inr 0)"
proof -
  have read: "operator_call (length ds) (Tensor_array ds :: 'a tensor) idx = Inr 0"
    if "length idx = length ds" "\<forall>a<length ds. idx ! a < ds ! a" "prod_list ds < size_limit"
    for ds idx
  proof -
    have "valid_index ds idx" using that by (intro valid_indexI) simp_all
    then have "offset_of ds idx < prod_list ds" by (rule offset_of_lt)
    then show ?thesis using that by (simp add: operator_call_eq wrap64_id)
  qed
  have "operator_call N (Tensor_array dims :: 'a tensor) idx = Inr 0"
    if "prod_list dims < size_limit" "length idx = N \<and> (\<forall>a<N. idx ! a < dims ! a)" for idx
    using read [of idx dims] that assms by simp
  moreover have "operator_call N (Tensor_default_p0 N :: 'a tensor) idx = Inr 0"
    if "length idx = N \<and> (\<forall>a<N. idx ! a < 1)" for idx
    using read [of idx "replicate N 1"] that by (simp add: Tensor_default_eq)
  ultimately show ?thesis
    using assms by (simp add: Tensor_dims_p0_def Tensor_default_p0_def Tensor_dims_h_eq)
qed

text \<open>A \<open>2\<times>3\<close> tensor of \<open>int\<close>, read at \<open>(1,2)\<close>, and the default tensor of rank 2.\<close>

theorem fresh_tensor_is_zero_witness:
  "Tensor_dims_p0 2 [2, 3] = Inr (Tensor_array [2, 3] :: int tensor) \<and>
   data (Tensor_array [2, 3] :: int tensor) = [0, 0, 0, 0, 0, 0] \<and>
   operator_call 2 (Tensor_array [2, 3] :: int tensor) [1, 2] = Inr 0 \<and>
   operator_call 2 (Tensor_default_p0 2 :: int tensor) [0, 0] = Inr 0"
proof -
  have a: "length [1, 2 :: nat] = 2 \<and> (\<forall>a<2. [1, 2] ! a < [2, 3 :: nat] ! a)"
    by (simp add: less_Suc_eq numeral_2_eq_2)
  have b: "length [0, 0 :: nat] = 2 \<and> (\<forall>a<2. [0, 0 :: nat] ! a < 1)"
    by (simp add: less_Suc_eq numeral_2_eq_2)
  have s: "prod_list [2, 3 :: nat] < size_limit"
    by (simp add: size_limit_def)
  have w: "wrap64 (prod_list [2, 3]) = 6"
    by (simp add: wrap64_def size_limit_def)
  have r: "replicate 6 (0 :: int) = [0, 0, 0, 0, 0, 0]"
    by (simp add: eval_nat_numeral)
  have "length [2, 3 :: nat] = 2" by simp
  from fresh_tensor_is_zero [OF this, where 'a = int] a b s
  show ?thesis unfolding w r by simp
qed

text \<open>
  The claim as stated fails when the product of the dimensions does not fit \<open>size_t\<close>:
  for the dimensions \<open>2^32\<close> and \<open>2^32\<close> the element count the constructor computes is
  0, the buffer is empty, and reading at the in-bounds index \<open>(0,0)\<close> is an access past
  the end of the buffer.
\<close>

theorem fresh_tensor_wraps:
  "[0, 0] ! 0 < [4294967296, 4294967296 :: nat] ! 0 \<and>
   [0, 0] ! 1 < [4294967296, 4294967296 :: nat] ! 1 \<and>
   data (Tensor_array [4294967296, 4294967296] :: int tensor) = [] \<and>
   operator_call 2 (Tensor_array [4294967296, 4294967296] :: int tensor) [0, 0]
     = Inl UndefinedBehaviour"
proof -
  let ?t = "Tensor_array [4294967296, 4294967296] :: int tensor"
  have w: "wrap64 (prod_list [4294967296, 4294967296]) = 0"
    by (simp add: wrap64_def size_limit_def)
  have d: "data ?t = []"
    unfolding Tensor_array_simps w by simp
  have "operator_call 2 ?t [0, 0] = vec_read (buffer ?t) (wrap64 (offset_of (shape ?t) [0, 0]))"
    by (rule operator_call_wrap) simp_all
  then have "operator_call 2 ?t [0, 0] = Inl UndefinedBehaviour"
    using d by simp
  then show ?thesis using d by simp
qed

section \<open>The size invariant\<close>

text \<open>
  Claim C8, as amended. In each of the three headers, every tensor built by a constructor
  (from dimension arguments of integer type, or from a shape array) and changed by
  \<open>fill\<close>, by assignment through \<open>operator()\<close>, by assignment of a flat literal list or
  by \<open>reshape\<close> has a shape of exactly \<open>N\<close> entries and a buffer whose length is the
  product of the shape modulo \<open>2^64\<close>; this is the product itself whenever the product
  is below \<open>2^64\<close>.
\<close>

theorem size_invariant:
  fixes t :: "('a::zero) tensor"
  shows
    "reachable_p0 N t \<or> reachable_h N t \<or> reachable_c N t \<longrightarrow>
       length (shape t) = N \<and>
       tensor_size t = wrap64 (prod_list (shape t)) \<and>
       (prod_list (shape t) < size_limit \<longrightarrow> tensor_size t = prod_list (shape t))"
proof -
  have p: "length (shape t) = N \<and> length (data t) = wrap64 (prod_list (shape t))"
    if "reachable_p0 N t"
    using that
  proof (induction rule: reachable_p0.induct)
    case (p0_dims dims t)
    then show ?case by (auto simp: Tensor_dims_p0_def split: if_splits)
  next
    case (p0_write t idx x r t')
    then show ?case using operator_call_assign_frame [of N t idx x r t'] by simp
  next
    case (p0_assign t list)
    then show ?case by (simp add: assign_list_p0_def)
  next
    case (p0_reshape t new_dims)
    then show ?case by (simp add: reshape_p0_def total_size_prod Let_def)
  qed (simp_all add: fill_def Tensor_default_eq)
  have h: "length (shape t) = N \<and> length (data t) = wrap64 (prod_list (shape t))"
    if "reachable_h N t"
    using that
  proof (induction rule: reachable_h.induct)
    case (h_write t idx x r t')
    then show ?case using operator_call_assign_frame [of N t idx x r t'] by simp
  next
    case (h_reshape t new_shape)
    then show ?case by (simp add: reshape_h_def total_size_prod Let_def)
  qed (simp_all add: fill_def Tensor_dims_h_eq)
  have c: "length (shape t) = N \<and> length (data t) = wrap64 (prod_list (shape t))"
    if "reachable_c N t"
    using that
  proof (induction rule: reachable_c.induct)
    case (c_write t idx x r t')
    then show ?case using operator_call_assign_c_frame [of N t idx x r t'] by simp
  next
    case (c_assign t list)
    then show ?case by (simp add: assign_list_c_def)
  next
    case (c_reshape t new_shape)
    then show ?case by (simp add: reshape_c_def total_size_prod Let_def)
  qed (simp_all add: fill_def)
  show ?thesis
  proof
    assume "reachable_p0 N t \<or> reachable_h N t \<or> reachable_c N t"
    then have "length (shape t) = N \<and> length (data t) = wrap64 (prod_list (shape t))"
      using p h c by blast
    then show "length (shape t) = N \<and>
       tensor_size t = wrap64 (prod_list (shape t)) \<and>
       (prod_list (shape t) < size_limit \<longrightarrow> tensor_size t = prod_list (shape t))"
      by (simp add: tensor_size_def wrap64_id)
  qed
qed

text \<open>
  One tensor per header: filled and reshaped to nine elements by part_000; built from
  two \<open>int\<close> arguments, filled, written at \<open>(0,2)\<close> and reshaped by Tensor.h; assigned
  from a list by the third header.
\<close>

theorem size_invariant_witness:
  "reachable_p0 2 (snd (reshape_p0 2 [3, 3] (fill 7 (Tensor_array [2, 3] :: int tensor)))) \<and>
   tensor_size (snd (reshape_p0 2 [3, 3] (fill 7 (Tensor_array [2, 3] :: int tensor)))) = 9 \<and>
   reachable_h 2 (snd (reshape_h [3, 2]
      (snd (operator_call_assign 2 (fill 7 (Tensor_dims_h [2, 3] :: int tensor)) [0, 2] 42)))) \<and>
   tensor_size (snd (reshape_h [3, 2]
      (snd (operator_call_assign 2 (fill 7 (Tensor_dims_h [2, 3] :: int tensor)) [0, 2] 42)))) = 6 \<and>
   reachable_c 2 (snd (assign_list_c [1, 2, 3, 4, 5, 6] (Tensor_array [2, 3] :: int tensor))) \<and>
   tensor_size (snd (assign_list_c [1, 2, 3, 4, 5, 6] (Tensor_array [2, 3] :: int tensor))) = 6"
proof -
  let ?t0 = "Tensor_array [2, 3] :: int tensor"
  let ?h0 = "Tensor_dims_h [2, 3] :: int tensor"
  let ?t1 = "fill 7 ?t0"
  let ?h1 = "fill 7 ?h0"
  let ?w = "operator_call_assign 2 ?h1 [0, 2] 42"
  have c23: "static_cast_size_t 2 = 2" "static_cast_size_t 3 = 3"
    by (simp_all add: static_cast_size_t_def size_limit_def)
  have w6: "wrap64 6 = 6" and w9: "wrap64 9 = 9"
    by (simp_all add: wrap64_def size_limit_def)
  have sh: "shape ?h1 = [2, 3]" and len: "length (data ?h1) = 6"
    by (simp_all add: fill_def Tensor_dims_h_eq c23 w6)
  have "operator_call_assign 2 ?h1 [0, 2] 42
      = (None, ?h1\<lparr>buffer := vec_update (buffer ?h1) (offset_of (shape ?h1) [0, 2]) 42\<rparr>)"
    by (rule operator_call_assign_eq) (simp_all add: sh len)
  then have w: "fst ?w = None" and shw: "shape (snd ?w) = [2, 3]"
    and lw: "length (data (snd ?w)) = 6"
    by (simp_all add: sh len)
  have p: "reachable_p0 2 (snd (reshape_p0 2 [3, 3] ?t1))"
    by (intro p0_reshape p0_fill p0_array) simp
  have "reachable_h 2 ?h1"
    by (intro h_fill h_dims) simp
  then have "reachable_h 2 (snd ?w)"
  proof (rule h_write)
    show "length [0, 2 :: nat] = 2" by simp
    show "?w = (None, snd ?w)" using w by (simp add: prod_eq_iff)
    show "None \<noteq> Some UndefinedBehaviour" by simp
  qed
  then have h: "reachable_h 2 (snd (reshape_h [3, 2] (snd ?w)))"
    by (rule h_reshape) simp
  have c: "reachable_c 2 (snd (assign_list_c [1, 2, 3, 4, 5, 6] ?t0))"
    by (intro c_assign c_array) simp
  have s1: "shape (snd (reshape_p0 2 [3, 3] ?t1)) = [3, 3]"
    by (simp add: reshape_p0_def Let_def)
  have s2: "shape (snd (reshape_h [3, 2] (snd ?w))) = [3, 2]"
    by (simp add: reshape_h_def Let_def total_size_prod w6 lw)
  have s3: "shape (snd (assign_list_c [1, 2, 3, 4, 5, 6] ?t0)) = [2, 3]"
    by (simp add: assign_list_c_def)
  have sm: "prod_list [3, 3 :: nat] < size_limit" "prod_list [3, 2 :: nat] < size_limit"
    "prod_list [2, 3 :: nat] < size_limit"
    by (simp_all add: size_limit_def)
  from size_invariant [of 2 "snd (reshape_p0 2 [3, 3] ?t1)"] p
  have 1: "tensor_size (snd (reshape_p0 2 [3, 3] ?t1)) = 9"
    unfolding s1 using sm by simp
  from size_invariant [of 2 "snd (reshape_h [3, 2] (snd ?w))"] h
  have 2: "tensor_size (snd (reshape_h [3, 2] (snd ?w))) = 6"
    unfolding s2 using sm by simp
  from size_invariant [of 2 "snd (assign_list_c [1, 2, 3, 4, 5, 6] ?t0)"] c
  have 3: "tensor_size (snd (assign_list_c [1, 2, 3, 4, 5, 6] ?t0)) = 6"
    unfolding s3 using sm by simp
  from p h c 1 2 3 show ?thesis by simp
qed

text \<open>
  The claim as stated, with the product of the axis sizes as a number, fails: Tensor.h
  reshapes a \<open>[2,3]\<close> tensor to \<open>[9223372036854775811, 2]\<close>, after which the buffer has 6
  elements and the product of the shape is \<open>2^64 + 6\<close>.
\<close>

theorem size_invariant_wraps:
  "reachable_h 2 (snd (reshape_h [9223372036854775811, 2] (Tensor_array [2, 3] :: int tensor))) \<and>
   shape (snd (reshape_h [9223372036854775811, 2] (Tensor_array [2, 3] :: int tensor)))
     = [9223372036854775811, 2] \<and>
   tensor_size (snd (reshape_h [9223372036854775811, 2] (Tensor_array [2, 3] :: int tensor))) = 6 \<and>
   prod_list [9223372036854775811, 2 :: nat] = 18446744073709551622"
proof -
  let ?t0 = "Tensor_array [2, 3] :: int tensor"
  have w: "wrap64 (prod_list [9223372036854775811, 2]) = 6" "wrap64 (prod_list [2, 3]) = 6"
    by (simp_all add: wrap64_def size_limit_def)
  have r: "reshape_h [9223372036854775811, 2] ?t0 = (None, ?t0\<lparr>shape := [9223372036854775811, 2]\<rparr>)"
    unfolding reshape_h_def total_size_prod Let_def Tensor_array_simps w by simp
  have "reachable_h 2 (snd (reshape_h [9223372036854775811, 2] ?t0))"
    by (intro h_reshape h_array) simp_all
  moreover have "tensor_size (snd (reshape_h [9223372036854775811, 2] ?t0)) = 6"
    unfolding r tensor_size_def using w by simp
  ultimately show ?thesis unfolding r by simp
qed

section \<open>Failures of the matrix product\<close>

text \<open>
  Claim C6. \<open>matrix_product\<close> of part_000 throws for a rank below 2. For a rank of
  at least 2 it throws the "incompatible" error exactly when the last axis of \<open>A\<close>
  differs from the last-but-one axis of \<open>B\<close>, and it throws the "batch dimensions do not
  match" error, a different message raised after the first check has passed, exactly
  when those inner axes agree and some leading axis \<open>i < N - 2\<close> differs between \<open>A\<close> and
  \<open>B\<close>; any difference counts, also against an axis of size 1. All three are
  \<open>std::runtime_error\<close>; the rank error carries the text of the inner-dimension error.
\<close>

theorem matrix_product_errors:
  fixes A B :: "('a::semiring_0) tensor"
  shows
    "(N < 2 \<longrightarrow> matrix_product_p0 N A B = Inl (RuntimeError incompatible_msg)) \<and>
     (2 \<le> N \<longrightarrow>
        (matrix_product_p0 N A B = Inl (RuntimeError incompatible_msg)
           \<longleftrightarrow> shape A ! (N - 1) \<noteq> shape B ! (N - 2)) \<and>
        (matrix_product_p0 N A B = Inl (RuntimeError batch_msg)
           \<longleftrightarrow> shape A ! (N - 1) = shape B ! (N - 2) \<and> (\<exists>i<N - 2. shape A ! i \<noteq> shape B ! i))) \<and>
     incompatible_msg \<noteq> batch_msg"
proof -
  let ?inner = "shape A ! (N - 1) \<noteq> shape B ! (N - 2)"
  let ?batch = "\<exists>i<N - 2. shape A ! i \<noteq> shape B ! i"
  have batch: "(\<not> list_all (\<lambda>i. shape A ! i = shape B ! i) [0..<N - 2]) \<longleftrightarrow> ?batch"
    by (auto simp: list_all_iff)
  have rank: "matrix_product_p0 N A B = Inl (RuntimeError incompatible_msg)" if "N < 2"
    using that by (simp add: matrix_product_p0_def)
  have inner: "matrix_product_p0 N A B = Inl (RuntimeError incompatible_msg)" if "2 \<le> N" ?inner
    using that by (simp add: matrix_product_p0_def)
  have bat: "matrix_product_p0 N A B = Inl (RuntimeError batch_msg)"
    if "2 \<le> N" "\<not> ?inner" ?batch
    using that batch by (simp add: matrix_product_p0_def)
  have comp: "matrix_product_p0 N A B \<noteq> Inl (RuntimeError m)"
    if "2 \<le> N" "\<not> ?inner" "\<not> ?batch" for m
  proof
    assume "matrix_product_p0 N A B = Inl (RuntimeError m)"
    with that have "RuntimeError m = UndefinedBehaviour"
      by (intro matrix_product_compute_Inl [of N _ _ A B])
        (simp add: matrix_product_p0_pass)
    then show False by simp
  qed
  show ?thesis
    using rank inner bat comp msgs_differ by (metis error.inject(1) sum.inject(1) not_le)
qed

text \<open>
  Rank 1; shapes \<open>[2,3]\<close> and \<open>[2,4]\<close>; shapes \<open>[2,2,3]\<close> and \<open>[1,3,2]\<close>, whose inner
  axes agree and whose batch axes \<open>2\<close> and \<open>1\<close> are not broadcast.
\<close>

theorem matrix_product_errors_witness:
  "matrix_product_p0 1 (Tensor [3] [1, 2, 3 :: int]) (Tensor [3] [1, 2, 3])
     = Inl (RuntimeError incompatible_msg) \<and>
   matrix_product_p0 2 (Tensor [2, 3] [1, 2, 3, 4, 5, 6 :: int])
       (Tensor [2, 4] [1, 1, 1, 1, 1, 1, 1, 1])
     = Inl (RuntimeError incompatible_msg) \<and>
   matrix_product_p0 3 (Tensor [2, 2, 3] [1, 2, 3, 4, 5, 6, 7, 8, 9, 10, 11, 12 :: int])
       (Tensor [1, 3, 2] [1, 1, 1, 1, 1, 1])
     = Inl (RuntimeError batch_msg)"
proof -
  have b: "\<exists>i<3 - 2. [2, 2, 3 :: nat] ! i \<noteq> [1, 3, 2] ! i"
    by (rule exI [of _ 0]) simp
  show ?thesis
    using matrix_product_errors [of 1 "Tensor [3] [1, 2, 3 :: int]"
        "Tensor [3] [1, 2, 3]"]
      matrix_product_errors [of 2 "Tensor [2, 3] [1, 2, 3, 4, 5, 6 :: int]"
        "Tensor [2, 4] [1, 1, 1, 1, 1, 1, 1, 1]"]
      matrix_product_errors [of 3
        "Tensor [2, 2, 3] [1, 2, 3, 4, 5, 6, 7, 8, 9, 10, 11, 12 :: int]"
        "Tensor [1, 3, 2] [1, 1, 1, 1, 1, 1]"] b
    by simp
qed

section \<open>Elementwise arithmetic\<close>



text \<open>
  Claim C1 names the result shape \<open>max(sa[a], sb[a])\<close> on every axis, so that adding a
  \<open>[1,3]\<close> tensor to a \<open>[2,3]\<close> tensor gives shape \<open>[2,3]\<close> in either order. The
  \<open>operator+\<close> of part_000 passes the \<open>can_broadcast\<close> check and then builds the result
  with the shape of its left operand: with the \<open>[1,3]\<close> tensor on the left the result has
  shape \<open>[1,3]\<close> and three elements, the left operand plus the first row of the right
  one.
\<close>

theorem operator_plus_p0_left_broadcast:
  "operator_plus_p0 2 (Tensor [1, 3] [1, 2, 3 :: int])
       (Tensor [2, 3] [10, 20, 30, 40, 50, 60])
     = Inr (Tensor [1, 3] [11, 22, 33])"
proof -
  let ?A = "Tensor [1, 3] [1, 2, 3 :: int]"
  let ?B = "Tensor [2, 3] [10, 20, 30, 40, 50, 60 :: int]"
  have s: "shape ?A = [1, 3]" "shape ?B = [2, 3]"
    and d: "data ?A = [1, 2, 3]" "data ?B = [10, 20, 30, 40, 50, 60]"
    by (simp_all add: size_limit_def)
  have cb: "can_broadcast [1, 3] [2, 3]" by code_simp
  have run: "operator_plus_p0 2 ?A ?B =
      Inr (Tensor (shape ?A)
        (map (\<lambda>i. data ?A ! i + data ?B ! bcast_offset (shape ?A) (shape ?B) i)
           [0..<length (data ?A)]))"
    unfolding operator_plus_p0_def
  proof (rule elementwise_p0_result)
    show "can_broadcast (shape ?A) (shape ?B)" unfolding s by (rule cb)
  qed (simp_all add: size_limit_def)
  have m: "map (\<lambda>i. [1, 2, 3 :: int] ! i
              + [10, 20, 30, 40, 50, 60] ! bcast_offset [1, 3] [2, 3] i) [0..<length [1, 2, 3 :: int]]
      = [11, 22, 33]"
    by code_simp
  show ?thesis unfolding run s d m ..
qed

text \<open>
  With the operands exchanged the same operator gives the shape \<open>[2,3]\<close>; the
  \<open>operator*\<close> of Tensor.h broadcasts both operands, and its \<open>operator+\<close> rejects
  unequal shapes.
\<close>

lemma operator_plus_p0_right_broadcast:
  "operator_plus_p0 2 (Tensor [2, 3] [10, 20, 30, 40, 50, 60 :: int])
       (Tensor [1, 3] [1, 2, 3])
     = Inr (Tensor [2, 3] [11, 22, 33, 41, 52, 63])"
proof -
  let ?A = "Tensor [2, 3] [10, 20, 30, 40, 50, 60 :: int]"
  let ?B = "Tensor [1, 3] [1, 2, 3 :: int]"
  have s: "shape ?A = [2, 3]" "shape ?B = [1, 3]"
    and d: "data ?A = [10, 20, 30, 40, 50, 60]" "data ?B = [1, 2, 3]"
    by (simp_all add: size_limit_def)
  have cb: "can_broadcast [2, 3] [1, 3]" by code_simp
  have run: "operator_plus_p0 2 ?A ?B =
      Inr (Tensor (shape ?A)
        (map (\<lambda>i. data ?A ! i + data ?B ! bcast_offset (shape ?A) (shape ?B) i)
           [0..<length (data ?A)]))"
    unfolding operator_plus_p0_def
  proof (rule elementwise_p0_result)
    show "can_broadcast (shape ?A) (shape ?B)" unfolding s by (rule cb)
  qed (simp_all add: size_limit_def)
  have m: "map (\<lambda>i. [10, 20, 30, 40, 50, 60 :: int] ! i
              + [1, 2, 3] ! bcast_offset [2, 3] [1, 3] i) [0..<length [10, 20, 30, 40, 50, 60 :: int]]
      = [11, 22, 33, 41, 52, 63]"
    by code_simp
  show ?thesis unfolding run s d m ..
qed

lemma operator_times_h_broadcast:
  "operator_times_h 2 (Tensor [1, 3] [1, 2, 3 :: int])
       (Tensor [2, 3] [10, 20, 30, 40, 50, 60])
     = Inr (Tensor [2, 3] [10, 40, 90, 40, 100, 180])"
proof -
  let ?A = "Tensor [1, 3] [1, 2, 3 :: int]"
  let ?B = "Tensor [2, 3] [10, 20, 30, 40, 50, 60 :: int]"
  have s: "shape ?A = [1, 3]" "shape ?B = [2, 3]"
    and d: "data ?A = [1, 2, 3]" "data ?B = [10, 20, 30, 40, 50, 60]"
    by (simp_all add: size_limit_def)
  have cb: "can_broadcast [1, 3] [2, 3]" by code_simp
  have rs: "[2, 3] = map (\<lambda>i. if [1, 3 :: nat] ! i = 1 then [2, 3 :: nat] ! i else [1, 3] ! i) [0..<2]"
    by code_simp
  have run: "operator_times_h 2 ?A ?B =
     Inr (Tensor [2, 3] (map (\<lambda>j.
        data ?A ! offset_of (shape ?A)
          (map (\<lambda>d. if shape ?A ! d = 1 then 0 else unflatten [2, 3] j ! d) [0..<2])
        * data ?B ! offset_of (shape ?B)
          (map (\<lambda>d. if shape ?B ! d = 1 then 0 else unflatten [2, 3] j ! d) [0..<2]))
       [0..<prod_list [2, 3]]))"
  proof (rule operator_times_h_result)
    show "can_broadcast (shape ?A) (shape ?B)" unfolding s by (rule cb)
    show "[2, 3] = map (\<lambda>i. if shape ?A ! i = 1 then shape ?B ! i else shape ?A ! i) [0..<2]"
      unfolding s by (rule rs)
  qed (simp_all add: size_limit_def)
  have m: "map (\<lambda>j.
        [1, 2, 3 :: int] ! offset_of [1, 3]
          (map (\<lambda>d. if [1, 3 :: nat] ! d = 1 then 0 else unflatten [2, 3] j ! d) [0..<2])
        * [10, 20, 30, 40, 50, 60] ! offset_of [2, 3]
          (map (\<lambda>d. if [2, 3 :: nat] ! d = 1 then 0 else unflatten [2, 3] j ! d) [0..<2]))
       [0..<prod_list [2, 3]] = [10, 40, 90, 40, 100, 180]"
    by code_simp
  show ?thesis unfolding run s d m ..
qed

lemma operator_plus_h_unequal:
  "operator_plus_h (Tensor [1, 3] [1, 2, 3 :: int])
       (Tensor [2, 3] [10, 20, 30, 40, 50, 60])
     = Inl (InvalidArgument ''Shapes incompatibles para suma'')"
  by (simp add: operator_plus_h_def)

text \<open>
  The \<open>operator*\<close> of Tensor.h does what claim C1 says, for all well-formed operands of
  rank \<open>N\<close> whose result has fewer than \<open>2^64\<close> elements: it throws
  \<open>std::invalid_argument\<close> exactly when some axis has different sizes of which none is
  1, and otherwise returns a tensor whose axis sizes are those of the operand that is
  not 1 there (the maximum of the two, for axis sizes of at least 1) and whose element
  at an in-bounds index is the product of the elements of both operands at that index,
  with 0 at every axis of size 1.
\<close>

lemma operator_times_h_broadcasts:
  fixes A B :: "('a::{zero,times}) tensor"
  assumes la: "length (shape A) = N" and lb: "length (shape B) = N"
    and sA: "tensor_size A = prod_list (shape A)" and sB: "tensor_size B = prod_list (shape B)"
    and small: "prod_list (map (\<lambda>a. if shape A ! a = 1 then shape B ! a else shape A ! a) [0..<N])
                  < size_limit"
  shows
    "(\<not> can_broadcast (shape A) (shape B) \<longrightarrow>
        operator_times_h N A B = Inl (InvalidArgument ''Shapes incompatibles para broadcasting'')) \<and>
     (can_broadcast (shape A) (shape B) \<longrightarrow>
        (\<exists>R. operator_times_h N A B = Inr R \<and> length (shape R) = N \<and>
           (\<forall>a<N. shape R ! a = (if shape A ! a = 1 then shape B ! a else shape A ! a)) \<and>
           ((\<forall>d\<in>set (shape A). 0 < d) \<and> (\<forall>d\<in>set (shape B). 0 < d) \<longrightarrow>
              shape R = map2 max (shape A) (shape B)) \<and>
           tensor_size R = prod_list (shape R) \<and>
           (\<forall>idx. length idx = N \<and> (\<forall>a<N. idx ! a < shape R ! a) \<longrightarrow>
              operator_call N R idx =
                Inr (data A ! offset_of (shape A)
                       (map (\<lambda>a. broadcast_index (idx ! a) (shape A ! a)) [0..<N])
                   * data B ! offset_of (shape B)
                       (map (\<lambda>a. broadcast_index (idx ! a) (shape B ! a)) [0..<N])))))"
proof (intro conjI impI)
  assume "\<not> can_broadcast (shape A) (shape B)"
  with la show "operator_times_h N A B =
      Inl (InvalidArgument ''Shapes incompatibles para broadcasting'')"
    by (rule operator_times_h_fails)
next
  assume cb: "can_broadcast (shape A) (shape B)"
  have dA: "length (data A) = prod_list (shape A)" and dB: "length (data B) = prod_list (shape B)"
    using sA sB by (simp_all add: tensor_size_def)
  define rs where "rs = map (\<lambda>a. if shape A ! a = 1 then shape B ! a else shape A ! a) [0..<N]"
  have lrs: "length rs = N" by (simp add: rs_def)
  have rsn: "rs ! i = (if shape A ! i = 1 then shape B ! i else shape A ! i)" if "i < N" for i
    using that by (simp add: rs_def)
  have sm: "prod_list rs < size_limit" using small by (simp add: rs_def)
  let ?g = "\<lambda>idx. data A ! offset_of (shape A)
                    (map (\<lambda>d. if shape A ! d = 1 then 0 else idx ! d) [0..<N])
                * data B ! offset_of (shape B)
                    (map (\<lambda>d. if shape B ! d = 1 then 0 else idx ! d) [0..<N])"
  define R where "R = Tensor rs (map (\<lambda>j. ?g (unflatten rs j)) [0..<prod_list rs])"
  have res: "operator_times_h N A B = Inr R"
    unfolding R_def by (rule operator_times_h_result [OF la lb dA dB cb rs_def sm])
  have sR: "shape R = rs" by (simp add: R_def)
  have dR: "data R = map (\<lambda>j. ?g (unflatten rs j)) [0..<prod_list rs]"
    unfolding R_def using sm by simp
  have lR: "length (data R) = prod_list rs" by (simp add: dR)
  have cR: "data R ! j = ?g (unflatten rs j)" if "j < prod_list rs" for j
    unfolding dR using that by (simp cong: if_cong)
  have c: "shape A ! i = shape B ! i \<or> shape A ! i = 1 \<or> shape B ! i = 1" if "i < N" for i
    using cb that la by (simp add: can_broadcast_nth)
  have mx: "shape R = map2 max (shape A) (shape B)"
    if pos: "(\<forall>d\<in>set (shape A). 0 < d) \<and> (\<forall>d\<in>set (shape B). 0 < d)"
  proof (rule nth_equalityI)
    show "length (shape R) = length (map2 max (shape A) (shape B))"
      using sR lrs la lb by simp
  next
    fix i assume "i < length (shape R)"
    then have i: "i < N" using sR lrs by simp
    have "0 < shape A ! i" "0 < shape B ! i" using pos i la lb by simp_all
    then have "(if shape A ! i = 1 then shape B ! i else shape A ! i) = max (shape A ! i) (shape B ! i)"
      using c [OF i] by auto
    then show "shape R ! i = map2 max (shape A) (shape B) ! i"
      using sR rsn i la lb by simp
  qed
  have cells: "operator_call N R idx =
      Inr (data A ! offset_of (shape A)
             (map (\<lambda>a. broadcast_index (idx ! a) (shape A ! a)) [0..<N])
         * data B ! offset_of (shape B)
             (map (\<lambda>a. broadcast_index (idx ! a) (shape B ! a)) [0..<N]))"
    if idx: "length idx = N \<and> (\<forall>a<N. idx ! a < shape R ! a)" for idx
  proof -
    have v: "valid_index rs idx" using idx sR lrs by (intro valid_indexI) simp_all
    have lt: "offset_of rs idx < prod_list rs" using v by (rule offset_of_lt)
    have "operator_call N R idx = Inr (data R ! offset_of (shape R) idx)"
      using idx sR lR lrs lt by (intro operator_call_eq) simp_all
    then have "operator_call N R idx = Inr (?g (unflatten rs (offset_of rs idx)))"
      unfolding sR cR [OF lt] .
    then have "operator_call N R idx = Inr (?g idx)"
      unfolding unflatten_offset_of [OF v] .
    then show ?thesis by (simp add: broadcast_index_def)
  qed
  show "\<exists>R. operator_times_h N A B = Inr R \<and> length (shape R) = N \<and>
           (\<forall>a<N. shape R ! a = (if shape A ! a = 1 then shape B ! a else shape A ! a)) \<and>
           ((\<forall>d\<in>set (shape A). 0 < d) \<and> (\<forall>d\<in>set (shape B). 0 < d) \<longrightarrow>
              shape R = map2 max (shape A) (shape B)) \<and>
           tensor_size R = prod_list (shape R) \<and>
           (\<forall>idx. length idx = N \<and> (\<forall>a<N. idx ! a < shape R ! a) \<longrightarrow>
              operator_call N R idx =
                Inr (data A ! offset_of (shape A)
                       (map (\<lambda>a. broadcast_index (idx ! a) (shape A ! a)) [0..<N])
                   * data B ! offset_of (shape B)
                       (map (\<lambda>a. broadcast_index (idx ! a) (shape B ! a)) [0..<N])))"
  proof (intro exI conjI)
    show "operator_times_h N A B = Inr R" by (rule res)
    show "length (shape R) = N" using sR lrs by simp
    show "\<forall>a<N. shape R ! a = (if shape A ! a = 1 then shape B ! a else shape A ! a)"
      using sR rsn by simp
    show "(\<forall>d\<in>set (shape A). 0 < d) \<and> (\<forall>d\<in>set (shape B). 0 < d) \<longrightarrow>
              shape R = map2 max (shape A) (shape B)"
      using mx by blast
    show "tensor_size R = prod_list (shape R)"
      using sR lR by (simp add: tensor_size_def)
    show "\<forall>idx. length idx = N \<and> (\<forall>a<N. idx ! a < shape R ! a) \<longrightarrow>
              operator_call N R idx =
                Inr (data A ! offset_of (shape A)
                       (map (\<lambda>a. broadcast_index (idx ! a) (shape A ! a)) [0..<N])
                   * data B ! offset_of (shape B)
                       (map (\<lambda>a. broadcast_index (idx ! a) (shape B ! a)) [0..<N]))"
      using cells by blast
  qed
qed

section \<open>Transpose\<close>



section \<open>The matrix product\<close>




section \<open>Scalar arithmetic\<close>

text \<open>
  Claim C9 says that every scalar operator applies its operation between each element
  and the scalar, and that \<open>s - t\<close> holds \<open>s - x\<close> for each element \<open>x\<close> of \<open>t\<close>. The member
  operators \<open>+ - * /\<close> of part_000 and of the CMakeLists.txt part, the functions
  \<open>scalar + tensor\<close> and \<open>scalar * tensor\<close>, and the friend \<open>scalar - tensor\<close> of the
  CMakeLists.txt part do so: they keep the shape and the length of the buffer and change
  each element on its own.
\<close>

lemma scalar_ops_elementwise:
  "shape (operator_plus_scalar t a) = shape t \<and>
   data (operator_plus_scalar t a) = map (\<lambda>x. x + a) (data t)"
  "shape (operator_minus_scalar t b) = shape t \<and>
   data (operator_minus_scalar t b) = map (\<lambda>x. x - b) (data t)"
  "shape (operator_times_scalar t c) = shape t \<and>
   data (operator_times_scalar t c) = map (\<lambda>x. x * c) (data t)"
  "shape (operator_div_scalar dv t d) = shape t \<and>
   data (operator_div_scalar dv t d) = map (\<lambda>x. dv x d) (data t)"
  "scalar_plus a t = operator_plus_scalar t a"
  "scalar_times c t = operator_times_scalar t c"
  "shape (scalar_minus_c b t) = shape t \<and>
   data (scalar_minus_c b t) = map (\<lambda>x. b - x) (data t)"
  by (simp_all add: operator_plus_scalar_def operator_minus_scalar_def operator_times_scalar_def
      operator_div_scalar_def scalar_plus_def scalar_times_def scalar_minus_c_def)

lemma scalar_minus_c_nth:
  "i < tensor_size t \<Longrightarrow> data (scalar_minus_c s t) ! i = s - data t ! i"
  by (simp add: scalar_minus_c_def tensor_size_def)

lemma scalar_minus_c_negate_then_add:
  fixes s :: "'a::ab_group_add"
  shows "scalar_minus_c s t = scalar_plus s (t\<lparr>buffer := vec_map uminus (buffer t)\<rparr>)"
  by (simp add: tensor_eq_iff scalar_minus_c_def scalar_plus_def operator_plus_scalar_def)

lemma scalar_minus_c_example:
  "scalar_minus_c 5 (Tensor [3] [1, 2, 3 :: int]) = Tensor [3] [4, 3, 2]"
  by (simp add: tensor_eq_iff scalar_minus_c_def size_limit_def)

text \<open>
  The function \<open>operator-(const T& scalar, const Tensor<T, N>& tensor)\<close> of part_000
  is written
  \<^verbatim>\<open>Tensor<T, N> result = tensor;
  for (auto& x : result.begin()) x = scalar - x;
  return result;\<close>
  The range of its loop is the iterator \<open>result.begin()\<close>, which has neither members
  \<open>begin\<close> and \<open>end\<close> nor such functions found for it, so every instantiation of the
  template is ill-formed and the expression \<open>s - t\<close> has no behaviour with this header.
  It has no definition in this theory; the friend of the CMakeLists.txt part, which
  iterates over \<open>result.data_\<close>, is \<open>scalar_minus_c\<close> above.
\<close>

end
